theory Spec2Isabelle
  imports Main "HOL-Library.Word"
begin

section \<open>The x86 instruction decoder of InstructionSets/x86/Decoder.cpp\<close>

text \<open>
  The decoder is one member function, \<open>Decoder<model>::decode(source, length)\<close>, which
  reads bytes from a caller-supplied buffer and mutates the decoder's member fields.
  Here the fields are a record that every block of the function takes and returns, the
  buffer is the list of bytes not yet read (the pointer \<open>source\<close> up to \<open>end\<close>), and each
  \<open>return\<close> statement is a value of \<open>Outcome\<close>.

  The bitwise operations of the source are written with the functions \<open>and\<close>, \<open>or\<close>,
  \<open>push_bit\<close> (shift left) and \<open>drop_bit\<close> (logical shift right) of the word library.
\<close>

subsection \<open>Enumerations\<close>

type_synonym byte = "8 word"

datatype Model = i8086 | i80186 | i80286 | i80386

text \<open>
  Modelled from the spec: the declaration of \<open>enum class Model\<close> is not among the sources
  at hand; the order used by the comparisons \<open>model < Model::i80186\<close> is the order of the
  processor generations, 8086, 80186, 80286, 80386.
\<close>

fun model_rank :: "Model \<Rightarrow> nat" where
  "model_rank i8086 = 0"
| "model_rank i80186 = 1"
| "model_rank i80286 = 2"
| "model_rank i80386 = 3"

definition model_lt :: "Model \<Rightarrow> Model \<Rightarrow> bool" where
  "model_lt a b = (model_rank a < model_rank b)"

datatype Phase =
    Instruction
  | InstructionPageF
  | ModRegRM
  | ScaleIndexBase
  | DisplacementOrOperand
  | ReadyToPost

datatype ModRegRMFormat =
    MemReg_Reg
  | Reg_MemReg
  | MemRegTEST_to_IDIV
  | SegReg
  | MemRegROL_to_SAR
  | MemRegINC_DEC
  | MemRegINC_to_PUSH
  | MemRegPOP
  | MemRegMOV
  | MemRegADD_to_CMP
  | MemRegADC_to_CMP
  | MemRegSLDT_to_VERW
  | MemRegSGDT_to_LMSW

text \<open>
  The operations named by the decoder. \<open>Operation::INT\<close> and \<open>Operation::STR\<close> are
  \<open>INT_op\<close> and \<open>STR_op\<close> here, both names being notation of HOL.
\<close>

datatype (plugins only: extraction) Operation =
    Invalid
  | ADD | OR | ADC | SBB | AND | SUB | XOR | CMP
  | PUSH | POP | DAA | DAS | AAA | AAS | INC | DEC
  | PUSHA | POPA | BOUND | ARPL | INS | OUTS
  | JO | JNO | JB | JNB | JE | JNE | JBE | JNBE | JS | JNS | JP | JNP | JL | JNL | JLE | JNLE
  | TEST | XCHG | MOV | LEA | NOP | CBW | CWD | CALLF | WAIT | PUSHF | POPF | SAHF | LAHF
  | MOVS | CMPS | STOS | LODS | SCAS | RETN | LES | LDS | ENTER | LEAVE | RETF
  | INT3 | INT_op | INTO | IRET | AAM | AAD | XLAT | ESC
  | LOOPNE | LOOPE | LOOP | JPCX | IN | OUT | CALLD | JMPN | JMPF
  | HLT | CMC | CLC | STC | CLI | STI | CLD | STD
  | NOT | NEG | MUL | IMUL | DIV | IDIV
  | ROL | ROR | RCL | RCR | SAL | SHR | SAR
  | CALLN | SLDT | STR_op | LLDT | LTR | VERR | VERW
  | SGDT | LGDT | SMSW | LMSW | LAR | LSL | LOADALL | CLTS

text \<open>\<open>Source::None\<close> is \<open>SourceNone\<close>, \<open>Repetition::None\<close> is \<open>RepetitionNone\<close>.\<close>

datatype Source =
    SourceNone
  | CS | DS | ES | SS
  | eAX | eCX | eDX | eBX | eSP | eBP | eSI | eDI
  | AH | CH | DH | BH
  | Immediate | DirectAddress | Indirect

datatype Repetition = RepetitionNone | RepE | RepNE

text \<open>
  Modelled from the spec: the class \<open>ScaleIndexBase\<close> is declared in a header that is not
  among the sources. The decoder builds its values in three ways, one constructor each:
  \<open>ScaleIndexBase(scale, index, base)\<close> in \<open>rm_table\<close> (the spec gives the fields in this
  order), the conversion of a byte in \<open>sib_ = *source\<close>, and the default value.
\<close>

datatype SIB = SIB int Source Source | SIB_of_byte byte | SIB_default

text \<open>
  Modelled from the spec: the type of \<open>address_size_\<close>, a width class
  (Byte/Word/DoubleWord); \<open>decode\<close> reads the field and never assigns it.
\<close>

datatype Size = Byte | Word | DoubleWord

subsection \<open>The instruction and the decoder's fields\<close>

text \<open>
  Modelled from the spec: the class \<open>Instruction\<close> is declared in a header that is not
  among the sources. The one constructor mirrors the call
  \<open>InstructionT(operation_, source_, destination_, sib_, lock_, address_size_,
  segment_override_, repetition_, Size(operation_size_), displacement_, operand_)\<close>;
  the operation size is kept as the integer that the source casts to \<open>Size\<close>.
\<close>

datatype Instruction = InstructionT
  (ins_operation: Operation)
  (ins_source: Source)
  (ins_destination: Source)
  (ins_sib: SIB)
  (ins_lock: bool)
  (ins_address_size: Size)
  (ins_segment_override: Source)
  (ins_repetition: Repetition)
  (ins_operation_size: int)
  (ins_displacement: "16 word")
  (ins_operand: "16 word")

text \<open>
  Modelled from the spec: the declarations of the member fields of \<open>Decoder\<close>, which are
  in the absent header. The fields are named as in the source without the final
  underscore. \<open>instr_\<close> is one byte (the opcode switch of the second page compares it
  with one-byte case labels), \<open>inward_data_\<close> is the 64-bit accumulator that \<open>decode\<close>
  shifts by whole bytes, \<open>operand_\<close> is an unsigned and \<open>displacement_\<close> a signed 16-bit
  integer, the sizes and counts are \<open>int\<close>. The sizes are at most 2 and the counts at
  most the number of bytes taken in for the instruction in progress, so they are
  integers without a bound here. The one conversion to \<open>int\<close> of a value that a caller
  chooses, the number of bytes left in the buffer, is \<open>bytes_left\<close> below, with its 32 bits.
\<close>

record DecoderState =
  phase :: Phase
  modregrm_format :: ModRegRMFormat
  operation :: Operation
  instr :: byte
  consumed :: int
  operand_bytes :: int
  source :: Source
  destination :: Source
  displacement :: "16 word"
  operand :: "16 word"
  inward_data :: "64 word"
  sib :: SIB
  displacement_size :: int
  operand_size :: int
  operation_size :: int
  lock :: bool
  address_size :: Size
  segment_override :: Source
  repetition :: Repetition

text \<open>
  Modelled from the spec: the member initialisers of the absent header. A decoder starts
  in the phase \<open>Instruction\<close> with every prefix and tentative field clear.
\<close>

definition initial_state :: DecoderState where
  "initial_state = \<lparr>
     phase = Instruction,
     modregrm_format = MemReg_Reg,
     operation = Invalid,
     instr = 0,
     consumed = 0,
     operand_bytes = 0,
     source = SourceNone,
     destination = SourceNone,
     displacement = 0,
     operand = 0,
     inward_data = 0,
     sib = SIB_default,
     displacement_size = 0,
     operand_size = 0,
     operation_size = 0,
     lock = False,
     address_size = Word,
     segment_override = SourceNone,
     repetition = RepetitionNone \<rparr>"

text \<open>
  Modelled from the spec: \<open>reset_parsing()\<close> is defined in the absent header. The spec
  has it reset the decoder unconditionally to its initial phase with all prefix and
  tentative fields cleared, no field value leaking into the next instruction.
\<close>

definition reset_parsing :: "DecoderState \<Rightarrow> DecoderState" where
  "reset_parsing s = s\<lparr>
     phase := Instruction,
     modregrm_format := MemReg_Reg,
     operation := Invalid,
     instr := 0,
     consumed := 0,
     operand_bytes := 0,
     source := SourceNone,
     destination := SourceNone,
     displacement := 0,
     operand := 0,
     inward_data := 0,
     sib := SIB_default,
     displacement_size := 0,
     operand_size := 0,
     operation_size := 0,
     lock := False,
     address_size := Word,
     segment_override := SourceNone,
     repetition := RepetitionNone \<rparr>"

text \<open>
  Modelled from the spec: the default \<open>InstructionT()\<close>, the sentinel of a rejected
  instruction: operation \<open>Invalid\<close> (the spec's Undefined), every other field default.
\<close>

definition InstructionT_default :: Instruction where
  "InstructionT_default =
     InstructionT Invalid SourceNone SourceNone SIB_default False Word SourceNone
       RepetitionNone 0 0 0"

subsection \<open>The macros of the opcode switch\<close>

text \<open>
  Each case of the two opcode switches is one macro invocation or a short run of
  assignments. \<open>Action\<close> has a constructor for each macro, named after it, and one for
  each of the inline cases; \<open>perform\<close> holds the macro bodies, statement by statement.
  \<open>undefined()\<close> leaves the switch before anything else of the case runs, so \<open>perform\<close>
  answers \<open>None\<close> for it.
\<close>

datatype Action =
    Undefined
  | Complete Operation Source Source int
  | RegData Operation Source int
  | RegAddr Operation Source int int
  | AddrReg Operation Source int int
  | MemRegReg Operation ModRegRMFormat int
  | Jump Operation
  | Far Operation
  | Displacement16Operand8 Operation
  | SegmentOverride Source
  | LockPrefix
  | RepetitionPrefix Repetition
  | PageF
  | ShiftByOne
  | ShiftByCX

definition SetOpSrcDestSize ::
    "Operation \<Rightarrow> Source \<Rightarrow> Source \<Rightarrow> int \<Rightarrow> DecoderState \<Rightarrow> DecoderState" where
  "SetOpSrcDestSize op src dest sz s =
     s\<lparr>operation := op, source := src, destination := dest, operation_size := sz\<rparr>"

fun perform :: "Action \<Rightarrow> DecoderState \<Rightarrow> DecoderState option" where
  "perform Undefined s = None"
| "perform (Complete op src dest sz) s =
     Some ((SetOpSrcDestSize op src dest sz s)\<lparr>phase := ReadyToPost\<rparr>)"
| "perform (RegData op dest sz) s =
     Some ((SetOpSrcDestSize op DirectAddress dest sz s)
        \<lparr>source := Immediate, operand_size := sz, phase := DisplacementOrOperand\<rparr>)"
| "perform (RegAddr op dest op_size addr_size) s =
     Some ((SetOpSrcDestSize op DirectAddress dest op_size s)
        \<lparr>operand_size := addr_size, phase := DisplacementOrOperand\<rparr>)"
| "perform (AddrReg op src op_size addr_size) s =
     Some ((SetOpSrcDestSize op src DirectAddress op_size s)
        \<lparr>operand_size := addr_size, destination := DirectAddress,
         phase := DisplacementOrOperand\<rparr>)"
| "perform (MemRegReg op format sz) s =
     Some (s\<lparr>operation := op, phase := ModRegRM, modregrm_format := format,
            operand_size := 0, operation_size := sz\<rparr>)"
| "perform (Jump op) s =
     Some (s\<lparr>operation := op, phase := DisplacementOrOperand, displacement_size := 1\<rparr>)"
| "perform (Far op) s =
     Some (s\<lparr>operation := op, phase := DisplacementOrOperand, operand_size := 4\<rparr>)"
| "perform (Displacement16Operand8 op) s =
     Some (s\<lparr>operation := op, phase := DisplacementOrOperand, displacement_size := 2,
            operand_size := 1\<rparr>)"
| "perform (SegmentOverride seg) s = Some (s\<lparr>segment_override := seg\<rparr>)"
| "perform LockPrefix s = Some (s\<lparr>lock := True\<rparr>)"
| "perform (RepetitionPrefix r) s = Some (s\<lparr>repetition := r\<rparr>)"
| "perform PageF s = Some (s\<lparr>phase := InstructionPageF\<rparr>)"
| "perform ShiftByOne s =
     Some (s\<lparr>phase := ModRegRM, modregrm_format := MemRegROL_to_SAR,
            operation_size := 1 + uint (and (instr s) 1), source := Immediate, operand := 1\<rparr>)"
| "perform ShiftByCX s =
     Some (s\<lparr>phase := ModRegRM, modregrm_format := MemRegROL_to_SAR,
            operation_size := 1 + uint (and (instr s) 1), source := eCX\<rparr>)"

subsection \<open>The opcode switch\<close>

text \<open>
  The \<open>switch(instr_)\<close> of the phase \<open>Instruction\<close>, as the list of its cases in the
  order of the source; a byte with no case takes \<open>default: undefined()\<close>. The two block
  macros expand to runs of consecutive cases. The switch promotes the byte to \<open>int\<close> and
  compares it with the \<open>int\<close> constants of the case labels; \<open>switch_on\<close> takes the first
  case whose label is equal (no label occurs twice).
\<close>

fun switch_on :: "int \<Rightarrow> (int \<times> Action) list \<Rightarrow> Action" where
  "switch_on i [] = Undefined"
| "switch_on i ((label, a) # cases) = (if i = label then a else switch_on i cases)"

definition PartialBlock :: "int \<Rightarrow> Operation \<Rightarrow> (int \<times> Action) list" where
  "PartialBlock start op =
    [(start + 0x00, MemRegReg op MemReg_Reg 1),
     (start + 0x01, MemRegReg op MemReg_Reg 2),
     (start + 0x02, MemRegReg op Reg_MemReg 1),
     (start + 0x03, MemRegReg op Reg_MemReg 2),
     (start + 0x04, RegData op eAX 1),
     (start + 0x05, RegData op eAX 2)]"

definition RegisterBlock :: "int \<Rightarrow> Operation \<Rightarrow> (int \<times> Action) list" where
  "RegisterBlock start op =
    [(start + 0x00, Complete op eAX eAX 2),
     (start + 0x01, Complete op eCX eCX 2),
     (start + 0x02, Complete op eDX eDX 2),
     (start + 0x03, Complete op eBX eBX 2),
     (start + 0x04, Complete op eSP eSP 2),
     (start + 0x05, Complete op eBP eBP 2),
     (start + 0x06, Complete op eSI eSI 2),
     (start + 0x07, Complete op eDI eDI 2)]"

definition instruction_cases :: "Model \<Rightarrow> (int \<times> Action) list" where
  "instruction_cases model =
    PartialBlock 0x00 ADD @
    [(0x06, Complete PUSH ES SourceNone 2),
     (0x07, Complete POP SourceNone ES 2)] @
    PartialBlock 0x08 OR @
    [(0x0e, Complete PUSH CS SourceNone 2),
     (0x0f, if model_lt model i80286 then Undefined else PageF)] @
    PartialBlock 0x10 ADC @
    [(0x16, Complete PUSH SS SourceNone 2),
     (0x17, Complete POP SourceNone SS 2)] @
    PartialBlock 0x18 SBB @
    [(0x1e, Complete PUSH DS SourceNone 2),
     (0x1f, Complete POP SourceNone DS 2)] @
    PartialBlock 0x20 AND @
    [(0x26, SegmentOverride ES),
     (0x27, Complete DAA eAX eAX 1)] @
    PartialBlock 0x28 SUB @
    [(0x2e, SegmentOverride CS),
     (0x2f, Complete DAS eAX eAX 1)] @
    PartialBlock 0x30 XOR @
    [(0x36, SegmentOverride SS),
     (0x37, Complete AAA eAX eAX 2)] @
    PartialBlock 0x38 CMP @
    [(0x3e, SegmentOverride DS),
     (0x3f, Complete AAS eAX eAX 2)] @
    RegisterBlock 0x40 INC @
    RegisterBlock 0x48 DEC @
    RegisterBlock 0x50 PUSH @
    RegisterBlock 0x58 POP @
    [(0x60, if model_lt model i80186 then Undefined else Complete PUSHA SourceNone SourceNone 2),
     (0x61, if model_lt model i80186 then Undefined else Complete POPA SourceNone SourceNone 2),
     (0x62, if model_lt model i80186 then Undefined else MemRegReg BOUND Reg_MemReg 2),
     (0x63, if model_lt model i80286 then Undefined else MemRegReg ARPL MemReg_Reg 2),
     (0x6c, if model_lt model i80186 then Undefined else Complete INS SourceNone SourceNone 1),
     (0x6d, if model_lt model i80186 then Undefined else Complete INS SourceNone SourceNone 2),
     (0x6e, if model_lt model i80186 then Undefined else Complete OUTS SourceNone SourceNone 1),
     (0x6f, if model_lt model i80186 then Undefined else Complete OUTS SourceNone SourceNone 2)] @
    [(0x70, Jump JO), (0x71, Jump JNO), (0x72, Jump JB), (0x73, Jump JNB),
     (0x74, Jump JE), (0x75, Jump JNE), (0x76, Jump JBE), (0x77, Jump JNBE),
     (0x78, Jump JS), (0x79, Jump JNS), (0x7a, Jump JP), (0x7b, Jump JNP),
     (0x7c, Jump JL), (0x7d, Jump JNL), (0x7e, Jump JLE), (0x7f, Jump JNLE)] @
    [(0x80, MemRegReg Invalid MemRegADD_to_CMP 1),
     (0x81, MemRegReg Invalid MemRegADD_to_CMP 2),
     (0x82, MemRegReg Invalid MemRegADC_to_CMP 1),
     (0x83, MemRegReg Invalid MemRegADC_to_CMP 2),
     (0x84, MemRegReg TEST MemReg_Reg 1),
     (0x85, MemRegReg TEST MemReg_Reg 2),
     (0x86, MemRegReg XCHG Reg_MemReg 1),
     (0x87, MemRegReg XCHG Reg_MemReg 2),
     (0x88, MemRegReg MOV MemReg_Reg 1),
     (0x89, MemRegReg MOV MemReg_Reg 2),
     (0x8a, MemRegReg MOV Reg_MemReg 1),
     (0x8b, MemRegReg MOV Reg_MemReg 2),
     (0x8d, MemRegReg LEA Reg_MemReg 2),
     (0x8e, MemRegReg MOV SegReg 2),
     (0x8f, MemRegReg POP MemRegPOP 2)] @
    [(0x90, Complete NOP SourceNone SourceNone 0),
     (0x91, Complete XCHG eAX eCX 2),
     (0x92, Complete XCHG eAX eDX 2),
     (0x93, Complete XCHG eAX eBX 2),
     (0x94, Complete XCHG eAX eSP 2),
     (0x95, Complete XCHG eAX eBP 2),
     (0x96, Complete XCHG eAX eSI 2),
     (0x97, Complete XCHG eAX eDI 2),
     (0x98, Complete CBW eAX AH 1),
     (0x99, Complete CWD eAX eDX 2),
     (0x9a, Far CALLF),
     (0x9b, Complete WAIT SourceNone SourceNone 0),
     (0x9c, Complete PUSHF SourceNone SourceNone 2),
     (0x9d, Complete POPF SourceNone SourceNone 2),
     (0x9e, Complete SAHF SourceNone SourceNone 1),
     (0x9f, Complete LAHF SourceNone SourceNone 1)] @
    [(0xa0, RegAddr MOV eAX 1 1),
     (0xa1, RegAddr MOV eAX 2 2),
     (0xa2, AddrReg MOV eAX 1 1),
     (0xa3, AddrReg MOV eAX 2 2),
     (0xa4, Complete MOVS SourceNone SourceNone 1),
     (0xa5, Complete MOVS SourceNone SourceNone 2),
     (0xa6, Complete CMPS SourceNone SourceNone 1),
     (0xa7, Complete CMPS SourceNone SourceNone 2),
     (0xa8, RegData TEST eAX 1),
     (0xa9, RegData TEST eAX 2),
     (0xaa, Complete STOS SourceNone SourceNone 1),
     (0xab, Complete STOS SourceNone SourceNone 2),
     (0xac, Complete LODS SourceNone SourceNone 1),
     (0xad, Complete LODS SourceNone SourceNone 2),
     (0xae, Complete SCAS SourceNone SourceNone 1),
     (0xaf, Complete SCAS SourceNone SourceNone 2)] @
    [(0xb0, RegData MOV eAX 1),
     (0xb1, RegData MOV eCX 1),
     (0xb2, RegData MOV eDX 1),
     (0xb3, RegData MOV eBX 1),
     (0xb4, RegData MOV AH 1),
     (0xb5, RegData MOV CH 1),
     (0xb6, RegData MOV DH 1),
     (0xb7, RegData MOV BH 1),
     (0xb8, RegData MOV eAX 2),
     (0xb9, RegData MOV eCX 2),
     (0xba, RegData MOV eDX 2),
     (0xbb, RegData MOV eBX 2),
     (0xbc, RegData MOV eSP 2),
     (0xbd, RegData MOV eBP 2),
     (0xbe, RegData MOV eSI 2),
     (0xbf, RegData MOV eDI 2)] @
    [(0xc2, RegData RETN SourceNone 2),
     (0xc3, Complete RETN SourceNone SourceNone 2),
     (0xc4, MemRegReg LES Reg_MemReg 2),
     (0xc5, MemRegReg LDS Reg_MemReg 2),
     (0xc6, MemRegReg MOV MemRegMOV 1),
     (0xc7, MemRegReg MOV MemRegMOV 2),
     (0xc8, if model_lt model i80186 then Undefined else Displacement16Operand8 ENTER),
     (0xc9, if model_lt model i80186 then Undefined else Complete LEAVE SourceNone SourceNone 0),
     (0xca, RegData RETF SourceNone 2),
     (0xcb, Complete RETF SourceNone SourceNone 4),
     (0xcc, Complete INT3 SourceNone SourceNone 0),
     (0xcd, RegData INT_op SourceNone 1),
     (0xce, Complete INTO SourceNone SourceNone 0),
     (0xcf, Complete IRET SourceNone SourceNone 0)] @
    [(0xd0, ShiftByOne), (0xd1, ShiftByOne),
     (0xd2, ShiftByCX), (0xd3, ShiftByCX),
     (0xd4, RegData AAM eAX 1),
     (0xd5, RegData AAD eAX 1),
     (0xd7, Complete XLAT SourceNone SourceNone 1),
     (0xd8, MemRegReg ESC MemReg_Reg 0),
     (0xd9, MemRegReg ESC MemReg_Reg 0),
     (0xda, MemRegReg ESC MemReg_Reg 0),
     (0xdb, MemRegReg ESC MemReg_Reg 0),
     (0xdc, MemRegReg ESC MemReg_Reg 0),
     (0xdd, MemRegReg ESC MemReg_Reg 0),
     (0xde, MemRegReg ESC MemReg_Reg 0),
     (0xdf, MemRegReg ESC MemReg_Reg 0)] @
    [(0xe0, Jump LOOPNE),
     (0xe1, Jump LOOPE),
     (0xe2, Jump LOOP),
     (0xe3, Jump JPCX),
     (0xe4, RegAddr IN eAX 1 1),
     (0xe5, RegAddr IN eAX 2 1),
     (0xe6, AddrReg OUT eAX 1 1),
     (0xe7, AddrReg OUT eAX 2 1),
     (0xe8, RegData CALLD SourceNone 2),
     (0xe9, RegData JMPN SourceNone 2),
     (0xea, Far JMPF),
     (0xeb, Jump JMPN),
     (0xec, Complete IN eDX eAX 1),
     (0xed, Complete IN eDX eAX 1),
     (0xee, Complete OUT eAX eDX 1),
     (0xef, Complete OUT eAX eDX 2)] @
    [(0xf0, LockPrefix),
     (0xf2, RepetitionPrefix RepNE),
     (0xf3, RepetitionPrefix RepE),
     (0xf4, Complete HLT SourceNone SourceNone 1),
     (0xf5, Complete CMC SourceNone SourceNone 1),
     (0xf6, MemRegReg Invalid MemRegTEST_to_IDIV 1),
     (0xf7, MemRegReg Invalid MemRegTEST_to_IDIV 2),
     (0xf8, Complete CLC SourceNone SourceNone 1),
     (0xf9, Complete STC SourceNone SourceNone 1),
     (0xfa, Complete CLI SourceNone SourceNone 1),
     (0xfb, Complete STI SourceNone SourceNone 1),
     (0xfc, Complete CLD SourceNone SourceNone 1),
     (0xfd, Complete STD SourceNone SourceNone 1),
     (0xfe, MemRegReg Invalid MemRegINC_DEC 1),
     (0xff, MemRegReg Invalid MemRegINC_to_PUSH 1)]"

definition instruction_switch :: "Model \<Rightarrow> byte \<Rightarrow> Action" where
  "instruction_switch model i = switch_on (uint i) (instruction_cases model)"

text \<open>The \<open>switch(instr_)\<close> of the phase \<open>InstructionPageF\<close>.\<close>

definition page_f_cases :: "Model \<Rightarrow> (int \<times> Action) list" where
  "page_f_cases model =
    [(0x00, MemRegReg Invalid MemRegSLDT_to_VERW 2),
     (0x01, MemRegReg Invalid MemRegSGDT_to_LMSW 2),
     (0x02, MemRegReg LAR Reg_MemReg 2),
     (0x03, MemRegReg LSL Reg_MemReg 2),
     (0x05, if model \<noteq> i80286 then Undefined else Complete LOADALL SourceNone SourceNone 0),
     (0x06, Complete CLTS SourceNone SourceNone 1)]"

definition page_f_switch :: "Model \<Rightarrow> byte \<Rightarrow> Action" where
  "page_f_switch model i = switch_on (uint i) (page_f_cases model)"

subsection \<open>The blocks of \<open>decode\<close>\<close>

text \<open>
  A block either executes a \<open>return\<close> (the pair returned, the fields as the call leaves
  them, the bytes of the buffer that were not read) or falls through to the next block
  with the fields and the unread bytes.
\<close>

datatype Outcome =
    Return "int \<times> Instruction" DecoderState "byte list"
  | Continue DecoderState "byte list"

text \<open>The macro \<open>undefined()\<close>: return the count, reset.\<close>

definition undefined_return :: "DecoderState \<Rightarrow> byte list \<Rightarrow> Outcome" where
  "undefined_return s rest =
     Return (consumed s, InstructionT_default) (reset_parsing s) rest"

text \<open>
  \<open>while(phase_ == Phase::Instruction && source != end)\<close>: retain the byte, count it,
  switch on it.
\<close>

fun instruction_loop :: "Model \<Rightarrow> DecoderState \<Rightarrow> byte list \<Rightarrow> Outcome" where
  "instruction_loop model s [] = Continue s []"
| "instruction_loop model s (b # bs) =
     (if phase s \<noteq> Instruction then Continue s (b # bs)
      else
        let s1 = s\<lparr>instr := b, consumed := consumed s + 1\<rparr> in
        case perform (instruction_switch model (instr s1)) s1 of
          None \<Rightarrow> undefined_return s1 bs
        | Some s2 \<Rightarrow> instruction_loop model s2 bs)"

text \<open>
  \<open>if(phase_ == Phase::InstructionPageF && source != end)\<close>. The assignment
  \<open>instr_ = 0x0f00 | *source\<close> computes in \<open>int\<close> and stores into the one-byte field.
\<close>

definition instruction_page_f :: "Model \<Rightarrow> DecoderState \<Rightarrow> byte list \<Rightarrow> Outcome" where
  "instruction_page_f model s bs =
     (case bs of
        [] \<Rightarrow> Continue s bs
      | b # bs' \<Rightarrow>
          if phase s \<noteq> InstructionPageF then Continue s bs
          else
            let s1 = s\<lparr>instr := ucast (or (0x0f00 :: 32 word) (ucast b)),
                       consumed := consumed s + 1\<rparr> in
            case perform (page_f_switch model (instr s1)) s1 of
              None \<Rightarrow> undefined_return s1 bs'
            | Some s2 \<Rightarrow> Continue s2 bs')"

text \<open>
  Modelled from the spec: the enumerator of \<open>Source\<close> whose value is zero, with which
  the empty first row of \<open>reg_table\<close> is filled; the enumeration is declared in the
  absent header. Only an operation size of 0 (the \<open>ESC\<close> opcodes) reads that row.
\<close>

definition Source_zero :: Source where
  "Source_zero = SourceNone"

definition reg_table :: "Source list list" where
  "reg_table =
    [replicate 8 Source_zero,
     [eAX, eCX, eDX, eBX, AH, CH, DH, BH],
     [eAX, eCX, eDX, eBX, eSP, eBP, eSI, eDI]]"

definition rm_table :: "SIB list" where
  "rm_table =
    [SIB 0 eBX eSI,
     SIB 0 eBX eDI,
     SIB 0 eBP eSI,
     SIB 0 eBP eDI,
     SIB 0 SourceNone eSI,
     SIB 0 SourceNone eDI,
     SIB 0 SourceNone eBP,
     SIB 0 SourceNone eBX]"

definition seg_table :: "Source list" where
  "seg_table = [ES, CS, SS, DS]"

text \<open>
  \<open>switch(mod)\<close>: the value of \<open>memreg\<close> and the fields, or \<open>Inl\<close> the fields with which
  \<open>undefined()\<close> is reached.
\<close>

definition mod_switch ::
    "byte \<Rightarrow> byte \<Rightarrow> DecoderState \<Rightarrow> DecoderState + (Source \<times> DecoderState)" where
  "mod_switch mode rm s =
     (if mode = 3 then
        let memreg = reg_table ! nat (operation_size s) ! unat rm in
        if operation s = LES \<or> operation s = LDS then Inl s else Inr (memreg, s)
      else
        let s1 = (if mode = 0 then s
                  else s\<lparr>displacement_size := 1 + (if mode = 2 then 1 else 0)\<rparr>) in
        Inr (Indirect, s1\<lparr>sib := rm_table ! unat rm\<rparr>))"

text \<open>
  \<open>switch(modregrm_format_)\<close>, with the inner \<open>switch(reg)\<close> of each group format;
  \<open>Inl\<close> the fields with which \<open>undefined()\<close> is reached.
\<close>

definition format_switch ::
    "Source \<Rightarrow> byte \<Rightarrow> DecoderState \<Rightarrow> DecoderState + DecoderState" where
  "format_switch memreg reg s =
     (case modregrm_format s of
        Reg_MemReg \<Rightarrow>
          Inr (s\<lparr>source := memreg,
                 destination := reg_table ! nat (operation_size s) ! unat reg\<rparr>)
      | MemReg_Reg \<Rightarrow>
          Inr (s\<lparr>source := reg_table ! nat (operation_size s) ! unat reg,
                 destination := memreg\<rparr>)
      | MemRegTEST_to_IDIV \<Rightarrow>
          (let s1 = s\<lparr>destination := memreg, source := memreg\<rparr> in
           if reg = 0 then Inr (s1\<lparr>operation := TEST\<rparr>)
           else if reg = 2 then Inr (s1\<lparr>operation := NOT\<rparr>)
           else if reg = 3 then Inr (s1\<lparr>operation := NEG\<rparr>)
           else if reg = 4 then Inr (s1\<lparr>operation := MUL\<rparr>)
           else if reg = 5 then Inr (s1\<lparr>operation := IMUL\<rparr>)
           else if reg = 6 then Inr (s1\<lparr>operation := DIV\<rparr>)
           else if reg = 7 then Inr (s1\<lparr>operation := IDIV\<rparr>)
           else Inl s1)
      | SegReg \<Rightarrow>
          (let s1 = s\<lparr>source := memreg\<rparr> in
           if and reg 4 \<noteq> 0 then Inl s1
           else Inr (s1\<lparr>destination := seg_table ! unat reg\<rparr>))
      | MemRegROL_to_SAR \<Rightarrow>
          (let s1 = s\<lparr>destination := memreg\<rparr> in
           if reg = 0 then Inr (s1\<lparr>operation := ROL\<rparr>)
           else if reg = 2 then Inr (s1\<lparr>operation := ROR\<rparr>)
           else if reg = 3 then Inr (s1\<lparr>operation := RCL\<rparr>)
           else if reg = 4 then Inr (s1\<lparr>operation := RCR\<rparr>)
           else if reg = 5 then Inr (s1\<lparr>operation := SAL\<rparr>)
           else if reg = 6 then Inr (s1\<lparr>operation := SHR\<rparr>)
           else if reg = 7 then Inr (s1\<lparr>operation := SAR\<rparr>)
           else Inl s1)
      | MemRegINC_DEC \<Rightarrow>
          (let s1 = s\<lparr>destination := memreg, source := memreg\<rparr> in
           if reg = 0 then Inr (s1\<lparr>operation := INC\<rparr>)
           else if reg = 1 then Inr (s1\<lparr>operation := DEC\<rparr>)
           else Inl s1)
      | MemRegINC_to_PUSH \<Rightarrow>
          (let s1 = s\<lparr>destination := memreg, source := memreg\<rparr> in
           if reg = 0 then Inr (s1\<lparr>operation := INC\<rparr>)
           else if reg = 1 then Inr (s1\<lparr>operation := DEC\<rparr>)
           else if reg = 2 then Inr (s1\<lparr>operation := CALLN\<rparr>)
           else if reg = 3 then
             Inr (s1\<lparr>operation := CALLF, operand_size := 4, source := Immediate\<rparr>)
           else if reg = 4 then Inr (s1\<lparr>operation := JMPN\<rparr>)
           else if reg = 5 then
             Inr (s1\<lparr>operation := JMPF, operand_size := 4, source := Immediate\<rparr>)
           else if reg = 6 then Inr (s1\<lparr>operation := PUSH\<rparr>)
           else Inl s1)
      | MemRegPOP \<Rightarrow>
          (let s1 = s\<lparr>destination := memreg, source := memreg\<rparr> in
           if reg \<noteq> 0 then Inl s1 else Inr s1)
      | MemRegMOV \<Rightarrow>
          Inr (s\<lparr>source := Immediate, destination := memreg,
                 operand_size := operation_size s\<rparr>)
      | MemRegADD_to_CMP \<Rightarrow>
          (let s1 = s\<lparr>destination := memreg, operand_size := operation_size s\<rparr> in
           if reg = 1 then Inr (s1\<lparr>operation := OR\<rparr>)
           else if reg = 2 then Inr (s1\<lparr>operation := ADC\<rparr>)
           else if reg = 3 then Inr (s1\<lparr>operation := SBB\<rparr>)
           else if reg = 4 then Inr (s1\<lparr>operation := AND\<rparr>)
           else if reg = 5 then Inr (s1\<lparr>operation := SUB\<rparr>)
           else if reg = 6 then Inr (s1\<lparr>operation := XOR\<rparr>)
           else if reg = 7 then Inr (s1\<lparr>operation := CMP\<rparr>)
           else Inr (s1\<lparr>operation := ADD\<rparr>))
      | MemRegADC_to_CMP \<Rightarrow>
          (let s1 = s\<lparr>destination := memreg, source := Immediate, operand_size := 1\<rparr> in
           if reg = 0 then Inr (s1\<lparr>operation := ADD\<rparr>)
           else if reg = 2 then Inr (s1\<lparr>operation := ADC\<rparr>)
           else if reg = 3 then Inr (s1\<lparr>operation := SBB\<rparr>)
           else if reg = 5 then Inr (s1\<lparr>operation := SUB\<rparr>)
           else if reg = 7 then Inr (s1\<lparr>operation := CMP\<rparr>)
           else Inl s1)
      | MemRegSLDT_to_VERW \<Rightarrow>
          (let s1 = s\<lparr>source := memreg, destination := memreg\<rparr> in
           if reg = 0 then Inr (s1\<lparr>operation := SLDT\<rparr>)
           else if reg = 1 then Inr (s1\<lparr>operation := STR_op\<rparr>)
           else if reg = 2 then Inr (s1\<lparr>operation := LLDT\<rparr>)
           else if reg = 3 then Inr (s1\<lparr>operation := LTR\<rparr>)
           else if reg = 4 then Inr (s1\<lparr>operation := VERR\<rparr>)
           else if reg = 5 then Inr (s1\<lparr>operation := VERW\<rparr>)
           else Inl s1)
      | MemRegSGDT_to_LMSW \<Rightarrow>
          (let s1 = s\<lparr>source := memreg, destination := memreg\<rparr> in
           if reg = 0 then Inr (s1\<lparr>operation := SGDT\<rparr>)
           else if reg = 2 then Inr (s1\<lparr>operation := LGDT\<rparr>)
           else if reg = 4 then Inr (s1\<lparr>operation := SMSW\<rparr>)
           else if reg = 6 then Inr (s1\<lparr>operation := LMSW\<rparr>)
           else Inl s1))"

text \<open>\<open>if(phase_ == Phase::ModRegRM && source != end)\<close>.\<close>

definition modregrm :: "DecoderState \<Rightarrow> byte list \<Rightarrow> Outcome" where
  "modregrm s bs =
     (case bs of
        [] \<Rightarrow> Continue s bs
      | b # bs' \<Rightarrow>
          if phase s \<noteq> ModRegRM then Continue s bs
          else
            let mode = drop_bit 6 b;
                reg = and (drop_bit 3 b) 7;
                rm = and b 7;
                s1 = s\<lparr>consumed := consumed s + 1\<rparr> in
            case mod_switch mode rm s1 of
              Inl u \<Rightarrow> undefined_return u bs'
            | Inr (memreg, s2) \<Rightarrow>
                (case format_switch memreg reg s2 of
                   Inl u \<Rightarrow> undefined_return u bs'
                 | Inr s3 \<Rightarrow>
                     Continue
                       (s3\<lparr>phase := (if displacement_size s3 + operand_size s3 \<noteq> 0
                                      then DisplacementOrOperand else ReadyToPost)\<rparr>)
                       bs'))"

text \<open>\<open>if(phase_ == Phase::ScaleIndexBase && source != end)\<close>.\<close>

definition scale_index_base :: "DecoderState \<Rightarrow> byte list \<Rightarrow> Outcome" where
  "scale_index_base s bs =
     (case bs of
        [] \<Rightarrow> Continue s bs
      | b # bs' \<Rightarrow>
          if phase s \<noteq> ScaleIndexBase then Continue s bs
          else Continue (s\<lparr>sib := SIB_of_byte b, consumed := consumed s + 1\<rparr>) bs')"

text \<open>
  The body of the \<open>for\<close> loop: \<open>inward_data_ = (inward_data_ >> 8) | (uint64_t(source[0]) << 56)\<close>.
\<close>

definition shift_in :: "64 word \<Rightarrow> byte \<Rightarrow> 64 word" where
  "shift_in w b = or (drop_bit 8 w) (push_bit 56 (ucast b))"

text \<open>
  The two switches that run once every byte has arrived: \<open>switch(operand_size_)\<close> and
  \<open>switch(displacement_size_)\<close>. The conversions to \<open>int8_t\<close> and \<open>int16_t\<close> keep the low
  bits; storing into the signed 16-bit \<open>displacement_\<close> extends the sign.
\<close>

definition operand_switch :: "DecoderState \<Rightarrow> DecoderState" where
  "operand_switch s =
     (if operand_size s = 1 then
        let s1 = s\<lparr>operand := ucast (drop_bit 56 (inward_data s)),
                   inward_data := push_bit 8 (inward_data s)\<rparr> in
        if operation_size s1 = 2 \<and> operation s1 \<noteq> IN \<and> operation s1 \<noteq> OUT then
          s1\<lparr>operand := or (operand s1) (if and (operand s1) 0x80 \<noteq> 0 then 0xff00 else 0x0000)\<rparr>
        else s1
      else if operand_size s = 4 \<or> operand_size s = 2 then
        let s1 = (if operand_size s = 4 then s\<lparr>displacement_size := 2\<rparr> else s) in
        s1\<lparr>operand := ucast (drop_bit 48 (inward_data s1)),
           inward_data := push_bit 16 (inward_data s1)\<rparr>
      else s\<lparr>operand := 0\<rparr>)"

definition displacement_switch :: "DecoderState \<Rightarrow> DecoderState" where
  "displacement_switch s =
     (if displacement_size s = 1 then
        s\<lparr>displacement := scast (ucast (drop_bit 56 (inward_data s)) :: 8 word)\<rparr>
      else if displacement_size s = 2 then
        s\<lparr>displacement := ucast (drop_bit 48 (inward_data s))\<rparr>
      else s\<lparr>displacement := 0\<rparr>)"

text \<open>
  The conversion \<open>int(end - source)\<close> in
  \<open>std::min(int(end - source), outstanding_bytes)\<close>: the number of bytes left in the
  buffer, a pointer difference, narrowed to the 32 bits of an \<open>int\<close>, two's complement.
  With 2^31 bytes or more left the value is negative or too small.
\<close>

definition bytes_left :: "byte list \<Rightarrow> int" where
  "bytes_left bs = sint (word_of_nat (length bs) :: 32 word)"

text \<open>
  \<open>if(phase_ == Phase::DisplacementOrOperand && source != end)\<close>. The loop runs
  \<open>bytes_to_consume\<close> times, no time at all when that is not positive; the two counts
  take \<open>bytes_to_consume\<close> as it is, negative too.
\<close>

definition displacement_or_operand :: "DecoderState \<Rightarrow> byte list \<Rightarrow> Outcome" where
  "displacement_or_operand s bs =
     (if phase s = DisplacementOrOperand \<and> bs \<noteq> [] then
        let required_bytes = displacement_size s + operand_size s;
            outstanding_bytes = required_bytes - operand_bytes s;
            bytes_to_consume = min (bytes_left bs) outstanding_bytes;
            s1 = s\<lparr>inward_data := foldl shift_in (inward_data s) (take (nat bytes_to_consume) bs)\<rparr>;
            rest = drop (nat bytes_to_consume) bs;
            s2 = s1\<lparr>consumed := consumed s1 + bytes_to_consume,
                    operand_bytes := operand_bytes s1 + bytes_to_consume\<rparr> in
        if bytes_to_consume = outstanding_bytes then
          Continue (displacement_switch (operand_switch (s2\<lparr>phase := ReadyToPost\<rparr>))) rest
        else
          Return (- (outstanding_bytes - bytes_to_consume), InstructionT_default) s2 rest
      else Continue s bs)"

text \<open>The completion check, and the final \<open>return\<close> of a call that is not done yet.\<close>

definition post :: "DecoderState \<Rightarrow> byte list \<Rightarrow> Outcome" where
  "post s bs =
     (if phase s = ReadyToPost then
        Return
          (consumed s,
           InstructionT (operation s) (source s) (destination s) (sib s) (lock s)
             (address_size s) (segment_override s) (repetition s) (operation_size s)
             (displacement s) (operand s))
          (reset_parsing s) bs
      else Return (0, InstructionT_default) s bs)"

subsection \<open>\<open>decode\<close>\<close>

text \<open>Sequencing: a \<open>return\<close> ends the call, anything else runs the next block.\<close>

definition and_then :: "Outcome \<Rightarrow> (DecoderState \<Rightarrow> byte list \<Rightarrow> Outcome) \<Rightarrow> Outcome" where
  "and_then r f = (case r of Return p s rest \<Rightarrow> Return p s rest | Continue s bs \<Rightarrow> f s bs)"

definition decode_blocks :: "Model \<Rightarrow> DecoderState \<Rightarrow> byte list \<Rightarrow> Outcome" where
  "decode_blocks model s bs =
     and_then (and_then (and_then (and_then (and_then
       (instruction_loop model s bs)
       (instruction_page_f model))
       modregrm)
       scale_index_base)
       displacement_or_operand)
       post"

text \<open>
  One call of \<open>decode\<close> on a decoder with fields \<open>s\<close> and a buffer \<open>bs\<close>: the pair
  returned, the fields afterwards, and the bytes of the buffer that the call did not read.
\<close>

definition decode ::
    "Model \<Rightarrow> DecoderState \<Rightarrow> byte list \<Rightarrow> (int \<times> Instruction) \<times> DecoderState \<times> byte list" where
  "decode model s bs =
     (case decode_blocks model s bs of
        Return p s' rest \<Rightarrow> (p, s', rest)
      | Continue s' rest \<Rightarrow> ((0, InstructionT_default), s', rest))"

section \<open>Notions used by the statements and the proofs\<close>

subsection \<open>The caller\<close>


text \<open>
  The decoders a caller can hold between two calls, starting from a fresh decoder, as
  long as no call takes the bytes of the instruction in progress and of its buffer
  together to 2^31 or more: up to there the buffer's length survives the conversion to
  \<open>int\<close> and the counts of the decoder stay in the range of \<open>int\<close>.
\<close>

inductive reachable :: "Model \<Rightarrow> DecoderState \<Rightarrow> bool" for m :: Model where
  reachable_initial: "reachable m initial_state"
| reachable_decode:
    "reachable m s \<Longrightarrow> consumed s + int (length bs) < 2 ^ 31 \<Longrightarrow>
     decode m s bs = (r, s', rest) \<Longrightarrow> reachable m s'"

text \<open>
  The values the fields take at the boundaries of the blocks inside a call: the six
  blocks in the order of \<open>decode\<close>, each followed from any fields seen so far and any
  buffer.
\<close>

definition blocks :: "Model \<Rightarrow> (DecoderState \<Rightarrow> byte list \<Rightarrow> Outcome) list" where
  "blocks m =
     [instruction_loop m, instruction_page_f m, modregrm, scale_index_base,
      displacement_or_operand, post]"

inductive visits :: "Model \<Rightarrow> DecoderState \<Rightarrow> bool" for m :: Model where
  visits_initial: "visits m initial_state"
| visits_Continue:
    "visits m s \<Longrightarrow> block \<in> set (blocks m) \<Longrightarrow> block s bs = Continue s' bs' \<Longrightarrow> visits m s'"
| visits_Return:
    "visits m s \<Longrightarrow> block \<in> set (blocks m) \<Longrightarrow> block s bs = Return r s' bs' \<Longrightarrow> visits m s'"

subsection \<open>Group opcodes\<close>




subsection \<open>Invariants and abbreviations of the proofs\<close>

text \<open>The pair that the completion check returns.\<close>

definition posted :: "DecoderState \<Rightarrow> int \<times> Instruction" where
  "posted s =
     (consumed s,
      InstructionT (operation s) (source s) (destination s) (sib s) (lock s)
        (address_size s) (segment_override s) (repetition s) (operation_size s)
        (displacement s) (operand s))"

text \<open>
  What the cases of the switches have in common: a macro that waits for operand bytes
  names at least one, a macro that waits for a ModRegRM byte sets an operation size that
  indexes \<open>reg_table\<close>; the cases of the second page all leave the opcode phases.
\<close>

fun wf_action :: "Action \<Rightarrow> bool" where
  "wf_action (RegData op dest sz) = (0 < sz)"
| "wf_action (RegAddr op dest op_size addr_size) = (0 < addr_size)"
| "wf_action (AddrReg op src op_size addr_size) = (0 < addr_size)"
| "wf_action (MemRegReg op format sz) = (sz = 0 \<or> sz = 1 \<or> sz = 2)"
| "wf_action _ = True"

fun terminal_action :: "Action \<Rightarrow> bool" where
  "terminal_action (SegmentOverride seg) = False"
| "terminal_action LockPrefix = False"
| "terminal_action (RepetitionPrefix r) = False"
| "terminal_action PageF = False"
| "terminal_action _ = True"

definition sizes_clear :: "DecoderState \<Rightarrow> bool" where
  "sizes_clear s = (operand_bytes s = 0 \<and> displacement_size s = 0 \<and> operand_size s = 0)"

text \<open>
  The invariant of the fields, phase by phase; \<open>resting\<close> is the invariant between two
  calls, where the phase \<open>ReadyToPost\<close> has always been left.
\<close>

definition good :: "DecoderState \<Rightarrow> bool" where
  "good s =
     (0 \<le> consumed s \<and>
      (case phase s of
         Instruction \<Rightarrow> sizes_clear s
       | InstructionPageF \<Rightarrow> sizes_clear s
       | ModRegRM \<Rightarrow>
           sizes_clear s \<and> (operation_size s = 0 \<or> operation_size s = 1 \<or> operation_size s = 2)
       | ScaleIndexBase \<Rightarrow> False
       | DisplacementOrOperand \<Rightarrow>
           0 \<le> operand_bytes s \<and> operand_bytes s < displacement_size s + operand_size s
       | ReadyToPost \<Rightarrow> 0 < consumed s))"

definition resting :: "DecoderState \<Rightarrow> bool" where
  "resting s = (good s \<and> phase s \<noteq> ReadyToPost)"

text \<open>The last assignment of the ModRegRM block.\<close>

definition modregrm_phase :: "DecoderState \<Rightarrow> DecoderState" where
  "modregrm_phase s3 =
     s3\<lparr>phase := (if displacement_size s3 + operand_size s3 \<noteq> 0
                   then DisplacementOrOperand else ReadyToPost)\<rparr>"

text \<open>
  The fields after the displacement-and-operand block has taken in the bytes \<open>bs\<close>, and
  after its two closing switches.
\<close>

definition take_in :: "DecoderState \<Rightarrow> byte list \<Rightarrow> DecoderState" where
  "take_in s bs =
     s\<lparr>inward_data := foldl shift_in (inward_data s) bs,
       consumed := consumed s + int (length bs),
       operand_bytes := operand_bytes s + int (length bs)\<rparr>"

definition finish :: "DecoderState \<Rightarrow> DecoderState" where
  "finish s = displacement_switch (operand_switch (s\<lparr>phase := ReadyToPost\<rparr>))"


subsection \<open>Decoders in the middle of an instruction\<close>

text \<open>
  The fields after the opcode byte 0xB8 (\<open>MOV AX, imm16\<close>), after the bytes 0x83 0xE8
  (group opcode and ModRegRM byte of \<open>SUB AX, imm8\<close>), and after the opcode byte 0x8B
  (\<open>MOV r16, r/m16\<close>).
\<close>

definition mov_ax_pending :: DecoderState where
  "mov_ax_pending =
     initial_state\<lparr>instr := 0xb8, consumed := 1, operation := MOV, source := Immediate,
       destination := eAX, operation_size := 2, operand_size := 2,
       phase := DisplacementOrOperand\<rparr>"


definition mov_reg_pending :: DecoderState where
  "mov_reg_pending =
     initial_state\<lparr>instr := 0x8b, consumed := 1, operation := MOV, phase := ModRegRM,
       modregrm_format := Reg_MemReg, operation_size := 2\<rparr>"

text \<open>The fields with which a block ends, whether it returns or falls through.\<close>

definition outcome_state :: "Outcome \<Rightarrow> DecoderState" where
  "outcome_state r = (case r of Return p s rest \<Rightarrow> s | Continue s rest \<Rightarrow> s)"

section \<open>The blocks, one at a time\<close>

subsection \<open>Resetting, skipping, posting\<close>

lemma reset_parsing_initial: "reset_parsing s = initial_state"
  by (simp add: reset_parsing_def initial_state_def)

lemma bit_0f00: "n < 8 \<Longrightarrow> \<not> bit (0x0f00 :: 32 word) n"
proof -
  assume "n < 8"
  then consider "n = 0" | "n = 1" | "n = 2" | "n = 3" | "n = 4" | "n = 5" | "n = 6" | "n = 7"
    by linarith
  then show ?thesis by cases simp_all
qed

lemma page_f_instr: "(ucast (or (0x0f00 :: 32 word) (ucast (b::byte))) :: byte) = b"
proof (rule bit_word_eqI)
  fix n assume "n < LENGTH(8)"
  then have n: "n < 8" by simp
  show "bit (ucast (or (0x0f00 :: 32 word) (ucast b)) :: byte) n = bit b n"
    using n bit_0f00[OF n] by (simp only: bit_ucast_iff bit_or_iff) auto
qed

lemma and_then_Return: "and_then (Return p s rest) f = Return p s rest"
  by (simp add: and_then_def)

lemma and_then_Continue: "and_then (Continue s bs) f = f s bs"
  by (simp add: and_then_def)

lemma instruction_loop_skip: "phase s \<noteq> Instruction \<Longrightarrow> instruction_loop m s bs = Continue s bs"
  by (cases bs) simp_all

lemma instruction_page_f_skip:
  "phase s \<noteq> InstructionPageF \<Longrightarrow> instruction_page_f m s bs = Continue s bs"
  by (simp add: instruction_page_f_def split: list.splits)

lemma modregrm_skip: "phase s \<noteq> ModRegRM \<Longrightarrow> modregrm s bs = Continue s bs"
  by (simp add: modregrm_def split: list.splits)

lemma scale_index_base_skip: "phase s \<noteq> ScaleIndexBase \<Longrightarrow> scale_index_base s bs = Continue s bs"
  by (simp add: scale_index_base_def split: list.splits)

lemma displacement_or_operand_skip:
  "phase s \<noteq> DisplacementOrOperand \<Longrightarrow> displacement_or_operand s bs = Continue s bs"
  by (simp add: displacement_or_operand_def)

lemmas skips = instruction_loop_skip instruction_page_f_skip modregrm_skip
  scale_index_base_skip displacement_or_operand_skip and_then_Return and_then_Continue

lemma decode_ReadyToPost:
  "phase s = ReadyToPost \<Longrightarrow> decode m s bs = (posted s, initial_state, bs)"
  by (simp add: decode_def decode_blocks_def skips post_def posted_def reset_parsing_initial)

lemma decode_Nil:
  "phase s \<noteq> ReadyToPost \<Longrightarrow> decode m s [] = ((0, InstructionT_default), s, [])"
  by (simp add: decode_def decode_blocks_def and_then_def instruction_page_f_def modregrm_def
      scale_index_base_def displacement_or_operand_def post_def)

lemma decode_Instruction:
  "phase s = Instruction \<Longrightarrow>
   decode m s (b # bs) =
     (case perform (instruction_switch m b) (s\<lparr>instr := b, consumed := consumed s + 1\<rparr>) of
        None \<Rightarrow> ((consumed s + 1, InstructionT_default), initial_state, bs)
      | Some s2 \<Rightarrow> decode m s2 bs)"
  by (simp add: decode_def decode_blocks_def and_then_def undefined_return_def
      reset_parsing_initial Let_def split: option.splits)

subsection \<open>The cases of the switches keep the invariant\<close>

lemma switch_on_cases: "switch_on i cs = Undefined \<or> (i, switch_on i cs) \<in> set cs"
  by (induction cs) (auto split: if_splits)

lemma wf_instruction_cases: "list_all (\<lambda>(i, a). wf_action a) (instruction_cases model)"
  by (simp add: instruction_cases_def PartialBlock_def RegisterBlock_def)

lemma wf_page_f_cases:
  "list_all (\<lambda>(i, a). wf_action a \<and> terminal_action a) (page_f_cases model)"
  by (simp add: page_f_cases_def)

lemma wf_instruction_switch: "wf_action (instruction_switch model i)"
  using switch_on_cases [of "uint i" "instruction_cases model"] wf_instruction_cases [of model]
  by (auto simp: instruction_switch_def list_all_iff)

lemma wf_page_f_switch:
  "wf_action (page_f_switch model i) \<and> terminal_action (page_f_switch model i)"
  using switch_on_cases [of "uint i" "page_f_cases model"] wf_page_f_cases [of model]
  by (auto simp: page_f_switch_def list_all_iff)

lemma uint_and_1: "uint (and (x::byte) 1) = 0 \<or> uint (and x 1) = 1"
proof -
  have "uint (and x 1) = uint x mod 2" by (simp add: and_one_eq uint_mod)
  then show ?thesis by presburger
qed

lemma perform_good:
  assumes "wf_action a" "sizes_clear s" "0 < consumed s" "perform a s = Some s2"
    "phase s = Instruction \<or> phase s = InstructionPageF"
  shows "good s2 \<and> consumed s2 = consumed s"
  using assms uint_and_1 [of "instr s"]
  by (cases a) (auto simp: good_def sizes_clear_def SetOpSrcDestSize_def)

lemma perform_terminal:
  assumes "terminal_action a" "perform a s = Some s2"
  shows "phase s2 \<noteq> Instruction \<and> phase s2 \<noteq> InstructionPageF"
  using assms by (cases a) (auto simp: SetOpSrcDestSize_def)

lemma instruction_page_f_Cons:
  "phase s = InstructionPageF \<Longrightarrow>
   instruction_page_f m s (b # bs) =
     (case perform (page_f_switch m b) (s\<lparr>instr := b, consumed := consumed s + 1\<rparr>) of
        None \<Rightarrow> undefined_return (s\<lparr>instr := b, consumed := consumed s + 1\<rparr>) bs
      | Some s2 \<Rightarrow> Continue s2 bs)"
  by (simp add: instruction_page_f_def page_f_instr Let_def)

lemma decode_InstructionPageF:
  "phase s = InstructionPageF \<Longrightarrow>
   decode m s (b # bs) =
     (case perform (page_f_switch m b) (s\<lparr>instr := b, consumed := consumed s + 1\<rparr>) of
        None \<Rightarrow> ((consumed s + 1, InstructionT_default), initial_state, bs)
      | Some s2 \<Rightarrow> decode m s2 bs)"
proof (cases "perform (page_f_switch m b) (s\<lparr>instr := b, consumed := consumed s + 1\<rparr>)")
  case None
  assume "phase s = InstructionPageF"
  with None show ?thesis
    by (simp add: decode_def decode_blocks_def skips instruction_page_f_Cons
        undefined_return_def reset_parsing_initial)
next
  case (Some s2)
  assume p: "phase s = InstructionPageF"
  from perform_terminal [OF _ Some] wf_page_f_switch [of m b]
  have "phase s2 \<noteq> Instruction" "phase s2 \<noteq> InstructionPageF" by auto
  with Some p show ?thesis
    by (simp add: decode_def decode_blocks_def skips instruction_page_f_Cons)
qed

subsection \<open>The ModRegRM byte\<close>

lemma mod_switch_Inl: "mod_switch mode rm s = Inl u \<Longrightarrow> u = s"
  by (auto simp: mod_switch_def Let_def split: if_splits)

lemma mod_switch_Inr:
  assumes "mod_switch mode rm s = Inr (memreg, s2)"
  shows "consumed s2 = consumed s \<and> phase s2 = phase s \<and> operand_size s2 = operand_size s \<and>
         operand_bytes s2 = operand_bytes s \<and> operation_size s2 = operation_size s \<and>
         modregrm_format s2 = modregrm_format s \<and>
         (displacement_size s2 = displacement_size s \<or> displacement_size s2 = 1 \<or>
          displacement_size s2 = 2)"
  using assms by (auto simp: mod_switch_def Let_def split: if_splits)

lemma format_switch_Inl: "format_switch memreg reg s = Inl u \<Longrightarrow> consumed u = consumed s"
  by (auto simp: format_switch_def Let_def split: ModRegRMFormat.splits if_splits)

lemma format_switch_Inr:
  assumes "format_switch memreg reg s = Inr s3"
  shows "consumed s3 = consumed s \<and> phase s3 = phase s \<and>
         displacement_size s3 = displacement_size s \<and> operand_bytes s3 = operand_bytes s \<and>
         (operand_size s3 = operand_size s \<or> operand_size s3 = operation_size s \<or>
          operand_size s3 = 1 \<or> operand_size s3 = 4)"
  using assms by (auto simp: format_switch_def Let_def split: ModRegRMFormat.splits if_splits)

lemma modregrm_Cons:
  "phase s = ModRegRM \<Longrightarrow>
   modregrm s (b # bs) =
     (case mod_switch (drop_bit 6 b) (and b 7) (s\<lparr>consumed := consumed s + 1\<rparr>) of
        Inl u \<Rightarrow> undefined_return u bs
      | Inr (memreg, s2) \<Rightarrow>
          (case format_switch memreg (and (drop_bit 3 b) 7) s2 of
             Inl u \<Rightarrow> undefined_return u bs
           | Inr s3 \<Rightarrow> Continue (modregrm_phase s3) bs))"
  unfolding modregrm_phase_def by (simp add: modregrm_def Let_def)

lemma decode_ModRegRM:
  assumes p: "phase s = ModRegRM"
  shows "decode m s (b # bs) =
     (case mod_switch (drop_bit 6 b) (and b 7) (s\<lparr>consumed := consumed s + 1\<rparr>) of
        Inl u \<Rightarrow> ((consumed s + 1, InstructionT_default), initial_state, bs)
      | Inr (memreg, s2) \<Rightarrow>
          (case format_switch memreg (and (drop_bit 3 b) 7) s2 of
             Inl u \<Rightarrow> ((consumed s + 1, InstructionT_default), initial_state, bs)
           | Inr s3 \<Rightarrow> decode m (modregrm_phase s3) bs))"
proof (cases "mod_switch (drop_bit 6 b) (and b 7) (s\<lparr>consumed := consumed s + 1\<rparr>)")
  case (Inl u)
  with mod_switch_Inl [OF Inl] p show ?thesis
    by (simp add: decode_def decode_blocks_def skips modregrm_Cons undefined_return_def
        reset_parsing_initial)
next
  case (Inr pr)
  obtain memreg s2 where pr: "pr = (memreg, s2)" by (cases pr)
  note ms = mod_switch_Inr [OF Inr [unfolded pr]]
  show ?thesis
  proof (cases "format_switch memreg (and (drop_bit 3 b) 7) s2")
    case (Inl u)
    with format_switch_Inl [OF Inl] ms Inr pr p show ?thesis
      by (simp add: decode_def decode_blocks_def skips modregrm_Cons undefined_return_def
          reset_parsing_initial)
  next
    case r: (Inr s3)
    have "phase (modregrm_phase s3) \<noteq> Instruction"
      "phase (modregrm_phase s3) \<noteq> InstructionPageF"
      "phase (modregrm_phase s3) \<noteq> ModRegRM"
      by (simp_all add: modregrm_phase_def)
    with r Inr pr p show ?thesis
      by (simp add: decode_def decode_blocks_def skips modregrm_Cons)
  qed
qed

lemma modregrm_good:
  assumes "good s" "phase s = ModRegRM"
    "mod_switch mode rm (s\<lparr>consumed := consumed s + 1\<rparr>) = Inr (memreg, s2)"
    "format_switch memreg reg s2 = Inr s3"
  shows "good (modregrm_phase s3) \<and> consumed (modregrm_phase s3) = consumed s + 1"
  using assms(1,2) mod_switch_Inr [OF assms(3)] format_switch_Inr [OF assms(4)]
  by (auto simp: good_def sizes_clear_def modregrm_phase_def)

subsection \<open>Displacement and operand bytes\<close>

lemma operand_switch_keeps:
  "phase (operand_switch s) = phase s \<and> consumed (operand_switch s) = consumed s"
  by (simp add: operand_switch_def Let_def)

lemma displacement_switch_keeps:
  "phase (displacement_switch s) = phase s \<and> consumed (displacement_switch s) = consumed s"
  by (simp add: displacement_switch_def)

lemma finish_keeps: "phase (finish s) = ReadyToPost \<and> consumed (finish s) = consumed s"
  by (simp add: finish_def operand_switch_keeps displacement_switch_keeps)

lemma bytes_left_small: "length bs < 2 ^ 31 \<Longrightarrow> bytes_left bs = int (length bs)"
  unfolding bytes_left_def
  by (simp add: signed_of_nat signed_take_bit_int_eq_self)

lemma decode_Displacement:
  assumes "phase s = DisplacementOrOperand" "bs \<noteq> []"
    "0 \<le> operand_bytes s" "operand_bytes s < displacement_size s + operand_size s"
    "length bs < 2 ^ 31"
  shows "decode m s bs =
     (let n = nat (displacement_size s + operand_size s - operand_bytes s) in
      if n \<le> length bs
      then (posted (finish (take_in s (take n bs))), initial_state, drop n bs)
      else ((- (int n - int (length bs)), InstructionT_default), take_in s bs, []))"
proof -
  let ?n = "nat (displacement_size s + operand_size s - operand_bytes s)"
  show ?thesis
  proof (cases "?n \<le> length bs")
    case True
    then have m: "min (bytes_left bs) (displacement_size s + operand_size s - operand_bytes s)
        = displacement_size s + operand_size s - operand_bytes s"
      using assms bytes_left_small [OF assms(5)] by linarith
    have l: "int (length (take ?n bs)) = displacement_size s + operand_size s - operand_bytes s"
      using True assms by simp
    from True assms show ?thesis
      unfolding decode_def decode_blocks_def
      apply (simp add: skips)
      apply (simp add: displacement_or_operand_def Let_def m and_then_Continue)
      apply (simp add: post_def finish_keeps [unfolded finish_def] posted_def
          reset_parsing_initial finish_def take_in_def l)
      done
  next
    case False
    then have m: "min (bytes_left bs) (displacement_size s + operand_size s - operand_bytes s)
        = int (length bs)"
      using assms bytes_left_small [OF assms(5)] by linarith
    have ne: "int (length bs) \<noteq> displacement_size s + operand_size s - operand_bytes s"
      using False by linarith
    from False assms show ?thesis
      unfolding decode_def decode_blocks_def
      apply (simp add: skips)
      apply (simp add: displacement_or_operand_def Let_def m ne and_then_Return take_in_def)
      done
  qed
qed

section \<open>Splitting a buffer in two\<close>

lemma good_initial: "good initial_state"
  by (simp add: good_def initial_state_def sizes_clear_def)

lemma resting_initial: "resting initial_state"
  by (simp add: resting_def good_initial) (simp add: initial_state_def)


lemma take_in_Nil: "take_in s [] = s"
  by (simp add: take_in_def)

lemma take_in_fields:
  "phase (take_in s bs) = phase s \<and> displacement_size (take_in s bs) = displacement_size s \<and>
   operand_size (take_in s bs) = operand_size s \<and>
   operand_bytes (take_in s bs) = operand_bytes s + int (length bs) \<and>
   consumed (take_in s bs) = consumed s + int (length bs)"
  by (simp add: take_in_def)

lemma posted_positive: "0 < consumed s \<Longrightarrow> 0 < fst (posted s)"
  by (simp add: posted_def)

lemma step_good_Instruction:
  assumes "good s" "phase s = Instruction \<or> phase s = InstructionPageF" "wf_action a"
    "perform a (s\<lparr>instr := b, consumed := consumed s + 1\<rparr>) = Some s2"
  shows "good s2 \<and> consumed s2 = consumed s + 1"
proof -
  let ?s1 = "s\<lparr>instr := b, consumed := consumed s + 1\<rparr>"
  from assms(1,2) have "sizes_clear ?s1" "0 < consumed ?s1"
    "phase ?s1 = Instruction \<or> phase ?s1 = InstructionPageF"
    by (auto simp: good_def sizes_clear_def)
  from perform_good [OF assms(3) this(1,2) assms(4) this(3)] show ?thesis by simp
qed



lemma resting_take_in:
  assumes "good s" "phase s = DisplacementOrOperand"
    "int (length bs) < displacement_size s + operand_size s - operand_bytes s"
  shows "resting (take_in s bs)"
  using assms by (simp add: resting_def good_def take_in_fields)

lemma decode_facts:
  "good s \<Longrightarrow> decode m s bs = (r, s', rest) \<Longrightarrow> length bs < 2 ^ 31 \<Longrightarrow>
   resting s' \<and> length rest \<le> length bs \<and>
   (0 < fst r \<longrightarrow> s' = initial_state \<and> (phase s \<noteq> ReadyToPost \<longrightarrow> length rest < length bs)) \<and>
   (\<not> 0 < fst r \<longrightarrow> rest = [] \<and> phase s \<noteq> ReadyToPost \<and>
      consumed s' = consumed s + int (length bs)) \<and>
   (0 < fst r \<longrightarrow> fst r = consumed s + int (length bs) - int (length rest)) \<and>
   rest = drop (length bs - length rest) bs \<and>
   (fst r < 0 \<longrightarrow>
      phase s' = DisplacementOrOperand \<and>
      displacement_size s' + operand_size s' - operand_bytes s' = - fst r)"
proof (induction bs arbitrary: s)
  case Nil
  show ?case
  proof (cases "phase s = ReadyToPost")
    case True
    with Nil(1) have "0 < fst (posted s)" by (simp add: good_def posted_def)
    with True Nil(2) show ?thesis
      by (auto simp: decode_ReadyToPost resting_initial posted_def)
  next
    case False
    with Nil show ?thesis by (auto simp: decode_Nil resting_def)
  qed
next
  case (Cons x xs)
  from Cons.prems(1) have c: "0 \<le> consumed s" by (simp add: good_def)
  from Cons.prems(3) have le: "length xs < 2 ^ 31" by simp
  show ?case
  proof (cases "phase s")
    case Instruction
    show ?thesis
    proof (cases "perform (instruction_switch m x) (s\<lparr>instr := x, consumed := consumed s + 1\<rparr>)")
      case None
      with Instruction c Cons.prems(2) show ?thesis
        by (auto simp: decode_Instruction resting_initial)
    next
      case (Some s2)
      from step_good_Instruction [OF Cons.prems(1) _ wf_instruction_switch Some] Instruction
      have "good s2" "consumed s2 = consumed s + 1" by simp_all
      from Cons.IH [OF this(1) _ le] this(2) Some Instruction Cons.prems(2) show ?thesis
        by (auto simp: decode_Instruction Suc_diff_le)
    qed
  next
    case InstructionPageF
    show ?thesis
    proof (cases "perform (page_f_switch m x) (s\<lparr>instr := x, consumed := consumed s + 1\<rparr>)")
      case None
      with InstructionPageF c Cons.prems(2) show ?thesis
        by (auto simp: decode_InstructionPageF resting_initial)
    next
      case (Some s2)
      from step_good_Instruction [OF Cons.prems(1) _ _ Some] InstructionPageF
        wf_page_f_switch [of m x]
      have "good s2" "consumed s2 = consumed s + 1" by simp_all
      from Cons.IH [OF this(1) _ le] this(2) Some InstructionPageF Cons.prems(2) show ?thesis
        by (auto simp: decode_InstructionPageF Suc_diff_le)
    qed
  next
    case ModRegRM
    show ?thesis
    proof (cases "mod_switch (drop_bit 6 x) (and x 7) (s\<lparr>consumed := consumed s + 1\<rparr>)")
      case (Inl u)
      with ModRegRM c Cons.prems(2) show ?thesis
        by (auto simp: decode_ModRegRM resting_initial)
    next
      case (Inr pr)
      obtain memreg s2 where pr: "pr = (memreg, s2)" by (cases pr)
      show ?thesis
      proof (cases "format_switch memreg (and (drop_bit 3 x) 7) s2")
        case (Inl u)
        with Inr pr ModRegRM c Cons.prems(2) show ?thesis
          by (auto simp: decode_ModRegRM resting_initial)
      next
        case r: (Inr s3)
        from modregrm_good [OF Cons.prems(1) ModRegRM Inr [unfolded pr] r]
        have "good (modregrm_phase s3)" "consumed (modregrm_phase s3) = consumed s + 1"
          by simp_all
        from Cons.IH [OF this(1) _ le] this(2) r Inr pr ModRegRM Cons.prems(2) show ?thesis
          by (auto simp: decode_ModRegRM Suc_diff_le)
      qed
    qed
  next
    case ScaleIndexBase
    with Cons.prems(1) show ?thesis by (simp add: good_def)
  next
    case DisplacementOrOperand
    from Cons.prems(1) DisplacementOrOperand
    have b: "0 \<le> operand_bytes s" "operand_bytes s < displacement_size s + operand_size s"
      by (simp_all add: good_def)
    let ?n = "nat (displacement_size s + operand_size s - operand_bytes s)"
    note D = decode_Displacement [OF DisplacementOrOperand _ b Cons.prems(3), of m, simplified]
    show ?thesis
    proof (cases "?n \<le> length (x # xs)")
      case True
      have "0 < consumed (finish (take_in s (take ?n (x # xs))))"
        using c b True by (simp add: finish_keeps take_in_fields)
      then have "0 < fst (posted (finish (take_in s (take ?n (x # xs)))))"
        by (rule posted_positive)
      with True Cons.prems(2) b DisplacementOrOperand show ?thesis
        by (auto simp: D Let_def resting_initial posted_def finish_keeps take_in_fields)
    next
      case False
      then have "int (length (x # xs)) < displacement_size s + operand_size s - operand_bytes s"
        by linarith
      from resting_take_in [OF Cons.prems(1) DisplacementOrOperand this] False Cons.prems(2) b
        DisplacementOrOperand
      show ?thesis
        by (auto simp: D Let_def take_in_fields)
    qed
  next
    case ReadyToPost
    with Cons.prems(1) have "0 < fst (posted s)" by (simp add: good_def posted_def)
    with ReadyToPost Cons.prems(2) show ?thesis
      by (auto simp: decode_ReadyToPost resting_initial posted_def)
  qed
qed

section \<open>Any chunking gives the same instructions\<close>






section \<open>Single opcodes\<close>

lemmas instruction_cases_flat =
  instruction_cases_def [unfolded PartialBlock_def RegisterBlock_def append.simps, simplified]

lemmas switch_eval = switch_on.simps rel_simps if_False if_True simp_thms

lemma instruction_switch_60:
  "instruction_switch m 0x60 =
     (if model_lt m i80186 then Undefined else Complete PUSHA SourceNone SourceNone 2)"
proof -
  have u: "uint (0x60 :: byte) = 0x60" by simp
  show ?thesis
    unfolding instruction_switch_def u instruction_cases_flat
    by (simp only: switch_eval cong: if_weak_cong)
qed

lemma instruction_switch_90: "instruction_switch m 0x90 = Complete NOP SourceNone SourceNone 0"
proof -
  have u: "uint (0x90 :: byte) = 0x90" by simp
  show ?thesis
    unfolding instruction_switch_def u instruction_cases_flat
    by (simp only: switch_eval cong: if_weak_cong)
qed

lemma instruction_switch_f3: "instruction_switch m 0xf3 = RepetitionPrefix RepE"
proof -
  have u: "uint (0xf3 :: byte) = 0xf3" by simp
  show ?thesis
    unfolding instruction_switch_def u instruction_cases_flat
    by (simp only: switch_eval cong: if_weak_cong)
qed

lemma instruction_switch_aa: "instruction_switch m 0xaa = Complete STOS SourceNone SourceNone 1"
proof -
  have u: "uint (0xaa :: byte) = 0xaa" by simp
  show ?thesis
    unfolding instruction_switch_def u instruction_cases_flat
    by (simp only: switch_eval cong: if_weak_cong)
qed

lemma instruction_switch_0f:
  "instruction_switch m 0x0f = (if model_lt m i80286 then Undefined else PageF)"
proof -
  have u: "uint (0x0f :: byte) = 0x0f" by simp
  show ?thesis
    unfolding instruction_switch_def u instruction_cases_flat
    by (simp only: switch_eval cong: if_weak_cong)
qed

lemma page_f_switch_05:
  "page_f_switch m 0x05 =
     (if m \<noteq> i80286 then Undefined else Complete LOADALL SourceNone SourceNone 0)"
  by (simp add: page_f_switch_def page_f_cases_def)

lemma phase_initial: "phase initial_state = Instruction"
  by (simp add: initial_state_def)

text \<open>
  Claim C5 (model gating). The single byte 0x60 is rejected by a decoder for the 8086,
  with count 1 and the operation \<open>Invalid\<close> of the default instruction (the spec's
  Undefined); a decoder for the 80186, 80286 or 80386 returns count 1 and \<open>PUSHA\<close>.
\<close>

theorem pusha_model_gating:
  "decode i8086 initial_state [0x60] = ((1, InstructionT_default), initial_state, []) \<and>
   ins_operation InstructionT_default = Invalid \<and>
   decode i80186 initial_state [0x60] =
     ((1, InstructionT PUSHA SourceNone SourceNone SIB_default False Word SourceNone
            RepetitionNone 2 0 0),
      initial_state, []) \<and>
   decode i80286 initial_state [0x60] =
     ((1, InstructionT PUSHA SourceNone SourceNone SIB_default False Word SourceNone
            RepetitionNone 2 0 0),
      initial_state, []) \<and>
   decode i80386 initial_state [0x60] =
     ((1, InstructionT PUSHA SourceNone SourceNone SIB_default False Word SourceNone
            RepetitionNone 2 0 0),
      initial_state, [])"
  by (simp add: decode_Instruction phase_initial instruction_switch_60 model_lt_def
      SetOpSrcDestSize_def decode_ReadyToPost posted_def InstructionT_default_def)
    (simp add: initial_state_def)

text \<open>
  Claim C8 (resumable prefix accumulation). A call with the byte 0xF3 alone returns
  count 0 and keeps the repetition in the fields; the next call on that decoder, with
  0xAA, completes \<open>STOS\<close> with count 2 and repetition \<open>RepE\<close> (repeat while equal).
\<close>

theorem repeat_prefix_resumes:
  "decode m initial_state [0xf3] =
     ((0, InstructionT_default), initial_state\<lparr>instr := 0xf3, consumed := 1, repetition := RepE\<rparr>, []) \<and>
   decode m (initial_state\<lparr>instr := 0xf3, consumed := 1, repetition := RepE\<rparr>) [0xaa] =
     ((2, InstructionT STOS SourceNone SourceNone SIB_default False Word SourceNone RepE 1 0 0),
      initial_state, [])"
  by (simp add: decode_Instruction phase_initial instruction_switch_f3 instruction_switch_aa
      SetOpSrcDestSize_def decode_ReadyToPost posted_def decode_Nil)
    (simp add: initial_state_def)

text \<open>
  Claim C9 (availability is not monotone). The two bytes 0x0F 0x05 decode to \<open>LOADALL\<close>
  on the 80286 only: the 80386 rejects them with count 2, and the two models before the
  80286 reject the byte 0x0F itself with count 1, leaving 0x05 unread.
\<close>

theorem loadall_only_80286:
  "decode i80286 initial_state [0x0f, 0x05] =
     ((2, InstructionT LOADALL SourceNone SourceNone SIB_default False Word SourceNone
            RepetitionNone 0 0 0),
      initial_state, []) \<and>
   decode i80386 initial_state [0x0f, 0x05] = ((2, InstructionT_default), initial_state, []) \<and>
   decode i8086 initial_state [0x0f, 0x05] = ((1, InstructionT_default), initial_state, [0x05]) \<and>
   decode i80186 initial_state [0x0f, 0x05] = ((1, InstructionT_default), initial_state, [0x05]) \<and>
   ins_operation InstructionT_default = Invalid"
  by (simp add: decode_Instruction decode_InstructionPageF phase_initial instruction_switch_0f
      page_f_switch_05 model_lt_def SetOpSrcDestSize_def decode_ReadyToPost posted_def
      InstructionT_default_def)
    (simp add: initial_state_def)

subsection \<open>The accumulator\<close>

lemma instruction_switch_b8: "instruction_switch m 0xb8 = RegData MOV eAX 2"
proof -
  have u: "uint (0xb8 :: byte) = 0xb8" by simp
  show ?thesis
    unfolding instruction_switch_def u instruction_cases_flat
    by (simp only: switch_eval cong: if_weak_cong)
qed

lemma top_byte: "(ucast (drop_bit 56 (shift_in w b)) :: 16 word) = ucast b"
  by (rule bit_word_eqI) (auto simp: shift_in_def bit_simps dest: bit_imp_le_length)

lemma top_byte8: "(ucast (drop_bit 56 (shift_in w b)) :: byte) = b"
  by (rule bit_word_eqI) (auto simp: shift_in_def bit_simps)

lemma top_word:
  "(ucast (drop_bit 48 (shift_in (shift_in w a) b)) :: 16 word) =
     or (ucast a) (push_bit 8 (ucast b))"
  by (rule bit_word_eqI) (auto simp: shift_in_def bit_simps dest: bit_imp_le_length)




section \<open>Instructions with trailing bytes\<close>

lemma decode_nop:
  "decode m initial_state (0x90 # rest) =
     ((1, InstructionT NOP SourceNone SourceNone SIB_default False Word SourceNone
            RepetitionNone 0 0 0),
      initial_state, rest)"
  by (simp add: decode_Instruction phase_initial instruction_switch_90 SetOpSrcDestSize_def
      decode_ReadyToPost posted_def)
    (simp add: initial_state_def)

lemma decode_b8:
  "decode m initial_state (0xb8 # rest) = decode m mov_ax_pending rest"
  by (simp add: decode_Instruction phase_initial instruction_switch_b8 SetOpSrcDestSize_def
      mov_ax_pending_def)
    (simp add: initial_state_def)

lemma mov_ax_pending_fields:
  "phase mov_ax_pending = DisplacementOrOperand" "operand_bytes mov_ax_pending = 0"
  "displacement_size mov_ax_pending = 0" "operand_size mov_ax_pending = 2"
  "consumed mov_ax_pending = 1" "operation_size mov_ax_pending = 2"
  "operation mov_ax_pending = MOV"
  by (simp_all add: mov_ax_pending_def initial_state_def)

lemma decode_mov_ax_one:
  "decode m mov_ax_pending [a] = ((- 1, InstructionT_default), take_in mov_ax_pending [a], [])"
  by (simp add: decode_Displacement mov_ax_pending_fields)

lemma decode_mov_ax_second:
  "decode m (take_in mov_ax_pending [a]) [b] =
     ((3, InstructionT MOV Immediate eAX SIB_default False Word SourceNone RepetitionNone 2 0
            (or (ucast a) (push_bit 8 (ucast b)))),
      initial_state, [])"
  apply (simp add: decode_Displacement take_in_fields mov_ax_pending_fields)
  apply (simp add: take_in_def finish_def operand_switch_def displacement_switch_def
      posted_def mov_ax_pending_fields top_word)
  apply (simp add: mov_ax_pending_def initial_state_def)
  done







section \<open>Reporting the bytes still needed\<close>

lemma reachable_resting: "reachable m s \<Longrightarrow> resting s"
proof (induction rule: reachable.induct)
  case reachable_initial
  show ?case by (rule resting_initial)
next
  case (reachable_decode s bs r s' rest)
  from reachable_decode.IH have g: "good s" by (simp add: resting_def)
  then have "0 \<le> consumed s" by (simp add: good_def)
  with reachable_decode.hyps(2) have "length bs < 2 ^ 31" by simp
  from decode_facts [OF g reachable_decode.hyps(3) this] show ?case by simp
qed


lemma needs_more:
  assumes "reachable m s" "consumed s + int (length bs) < 2 ^ 31"
    "decode m s bs = ((- int n, ins), s', rest)" "0 < n"
    "consumed s' + int (length bs') < 2 ^ 31"
  shows "(bs' \<noteq> [] \<and> length bs' < n \<longrightarrow>
            fst (fst (decode m s' bs')) = - (int n - int (length bs'))) \<and>
         (n \<le> length bs' \<longrightarrow>
            0 < fst (fst (decode m s' bs')) \<and> snd (snd (decode m s' bs')) = drop n bs') \<and>
         fst (fst (decode m s' [])) = 0"
proof -
  from reachable_resting [OF assms(1)] have g: "good s" by (simp add: resting_def)
  then have "0 \<le> consumed s" by (simp add: good_def)
  with assms(2) have lb: "length bs < 2 ^ 31" by simp
  from decode_facts [OF g assms(3) lb] assms(4)
  have p: "phase s' = DisplacementOrOperand"
    and n: "displacement_size s' + operand_size s' - operand_bytes s' = int n"
    and r: "resting s'"
    by simp_all
  from r p have b: "0 \<le> operand_bytes s'"
    "operand_bytes s' < displacement_size s' + operand_size s'"
    and c: "0 \<le> consumed s'"
    by (simp_all add: resting_def good_def)
  from c assms(5) have lb': "length bs' < 2 ^ 31" by simp
  have n': "nat (displacement_size s' + operand_size s' - operand_bytes s') = n"
    using n by simp
  have "fst (fst (decode m s' [])) = 0" using p by (simp add: decode_Nil)
  moreover have "bs' \<noteq> [] \<and> length bs' < n \<longrightarrow>
      fst (fst (decode m s' bs')) = - (int n - int (length bs'))"
    using decode_Displacement [OF p _ b lb', of m] by (auto simp: n' Let_def)
  moreover have "n \<le> length bs' \<longrightarrow>
      0 < fst (fst (decode m s' bs')) \<and> snd (snd (decode m s' bs')) = drop n bs'"
  proof
    assume l: "n \<le> length bs'"
    with assms(4) have ne: "bs' \<noteq> []" by auto
    have "0 < consumed (finish (take_in s' (take n bs')))"
      using c l assms(4) by (simp add: finish_keeps take_in_fields)
    then have "0 < fst (posted (finish (take_in s' (take n bs'))))" by (rule posted_positive)
    with decode_Displacement [OF p ne b lb', of m] l
    show "0 < fst (fst (decode m s' bs')) \<and> snd (snd (decode m s' bs')) = drop n bs'"
      by (simp add: n' Let_def)
  qed
  ultimately show ?thesis by blast
qed

text \<open>
  Claim C3 (insufficient-data signalling), as amended. A call with the opcode byte 0xB8
  alone returns count 0, not -2: the operand block runs only when the buffer still holds
  a byte, so a call whose buffer ends with the opcode takes the final \<open>return\<close>. After
  one of the two immediate bytes the count is -1, in one call with the opcode or in a
  call of its own, and the instruction completes with count 3 only when the second has
  arrived. For every decoder reachable from the initial one, and as long as the bytes of
  the instruction in progress and of the buffer together stay below 2^31 in each call, a
  return of \<open>-n\<close> means that exactly \<open>n\<close> more bytes complete the instruction: a next call
  with at least \<open>n\<close> bytes completes it and leaves all but \<open>n\<close> of them unread, a next call
  with \<open>k\<close> bytes, \<open>0 < k < n\<close>, returns \<open>-(n - k)\<close>, and a next call with no byte returns 0.
\<close>

theorem insufficient_data_signalling:
  "decode m initial_state [0xb8] = ((0, InstructionT_default), mov_ax_pending, []) \<and>
   decode m mov_ax_pending [a] = ((- 1, InstructionT_default), take_in mov_ax_pending [a], []) \<and>
   decode m initial_state [0xb8, a] =
     ((- 1, InstructionT_default), take_in mov_ax_pending [a], []) \<and>
   decode m (take_in mov_ax_pending [a]) [b] =
     ((3, InstructionT MOV Immediate eAX SIB_default False Word SourceNone RepetitionNone 2 0
            (or (ucast a) (push_bit 8 (ucast b)))),
      initial_state, []) \<and>
   (reachable m s \<and> consumed s + int (length bs) < 2 ^ 31 \<and>
    decode m s bs = ((- int n, ins), s', rest) \<and> 0 < n \<and>
    consumed s' + int (length bs') < 2 ^ 31 \<longrightarrow>
      (bs' \<noteq> [] \<and> length bs' < n \<longrightarrow>
         fst (fst (decode m s' bs')) = - (int n - int (length bs'))) \<and>
      (n \<le> length bs' \<longrightarrow>
         0 < fst (fst (decode m s' bs')) \<and> snd (snd (decode m s' bs')) = drop n bs') \<and>
      fst (fst (decode m s' [])) = 0)"
  using needs_more [of m s bs n ins s' rest bs']
  by (simp add: decode_b8 decode_mov_ax_one decode_mov_ax_second decode_Nil
      mov_ax_pending_fields)

theorem mov_opcode_alone_counterexample:
  "fst (fst (decode i8086 initial_state [0xb8])) \<noteq> - 2"
  by (simp add: decode_b8 decode_Nil mov_ax_pending_fields)

theorem insufficient_data_signalling_witness:
  "reachable i8086 initial_state \<and>
   consumed initial_state + int (length [0xb8, 0x34 :: byte]) < 2 ^ 31 \<and>
   decode i8086 initial_state [0xb8, 0x34] =
     ((- int 1, InstructionT_default), take_in mov_ax_pending [0x34], []) \<and>
   (0 :: nat) < 1 \<and>
   consumed (take_in mov_ax_pending [0x34]) + int (length [0x12 :: byte]) < 2 ^ 31 \<and>
   1 \<le> length [0x12 :: byte] \<and>
   0 < fst (fst (decode i8086 (take_in mov_ax_pending [0x34]) [0x12])) \<and>
   snd (snd (decode i8086 (take_in mov_ax_pending [0x34]) [0x12])) = drop 1 [0x12]"
  using insufficient_data_signalling [of i8086 "0x34" "0x12" initial_state "[0xb8, 0x34]" 1
      InstructionT_default "take_in mov_ax_pending [0x34]" "[]" "[0x12]"]
  by (simp add: reachable_initial take_in_fields mov_ax_pending_fields)
    (simp add: initial_state_def)

section \<open>A positive count resets the decoder\<close>

lemma instruction_loop_Return:
  "instruction_loop m s bs = Return r s' rest \<Longrightarrow> s' = initial_state"
proof (induction bs arbitrary: s)
  case Nil
  then show ?case by simp
next
  case (Cons b bs)
  then show ?case
    by (auto simp: undefined_return_def reset_parsing_initial Let_def
        split: if_splits option.splits)
qed

lemma instruction_page_f_Return:
  "instruction_page_f m s bs = Return r s' rest \<Longrightarrow> s' = initial_state"
  by (auto simp: instruction_page_f_def undefined_return_def reset_parsing_initial Let_def
      split: list.splits if_splits option.splits)

lemma modregrm_Return: "modregrm s bs = Return r s' rest \<Longrightarrow> s' = initial_state"
  by (auto simp: modregrm_def undefined_return_def reset_parsing_initial Let_def
      split: list.splits if_splits sum.splits prod.splits)

lemma scale_index_base_Return: "scale_index_base s bs \<noteq> Return r s' rest"
  by (auto simp: scale_index_base_def split: list.splits)

lemma displacement_or_operand_Return:
  "displacement_or_operand s bs = Return r s' rest \<Longrightarrow> fst r < 0"
  by (auto simp: displacement_or_operand_def Let_def min_def split: if_splits)

lemma post_Return:
  "post s bs = Return r s' rest \<Longrightarrow> 0 < fst r \<Longrightarrow> s' = initial_state"
  by (auto simp: post_def reset_parsing_initial split: if_splits)

lemma post_not_Continue: "post s bs \<noteq> Continue s' rest"
  by (simp add: post_def)

lemma positive_resets:
  assumes "0 < fst (fst (decode m s bs))"
  shows "fst (snd (decode m s bs)) = initial_state"
proof -
  consider (a) r s' rest where "instruction_loop m s bs = Return r s' rest"
    | (b) s1 b1 r s' rest where "instruction_loop m s bs = Continue s1 b1"
        "instruction_page_f m s1 b1 = Return r s' rest"
    | (c) s1 b1 s2 b2 r s' rest where "instruction_loop m s bs = Continue s1 b1"
        "instruction_page_f m s1 b1 = Continue s2 b2" "modregrm s2 b2 = Return r s' rest"
    | (d) s1 b1 s2 b2 s3 b3 s4 b4 where "instruction_loop m s bs = Continue s1 b1"
        "instruction_page_f m s1 b1 = Continue s2 b2" "modregrm s2 b2 = Continue s3 b3"
        "scale_index_base s3 b3 = Continue s4 b4"
    by (metis Outcome.exhaust scale_index_base_Return)
  then show ?thesis
  proof cases
    case a
    with instruction_loop_Return [OF a] show ?thesis
      by (simp add: decode_def decode_blocks_def and_then_def)
  next
    case b
    with instruction_page_f_Return [OF b(2)] show ?thesis
      by (simp add: decode_def decode_blocks_def and_then_def)
  next
    case c
    with modregrm_Return [OF c(3)] show ?thesis
      by (simp add: decode_def decode_blocks_def and_then_def)
  next
    case d
    show ?thesis
    proof (cases "displacement_or_operand s4 b4")
      case (Return r s' rest)
      from displacement_or_operand_Return [OF Return] d Return assms show ?thesis
        by (simp add: decode_def decode_blocks_def and_then_def)
    next
      case (Continue s5 b5)
      show ?thesis
      proof (cases "post s5 b5")
        case (Return r s' rest)
        with d Continue assms have "0 < fst r"
          by (simp add: decode_def decode_blocks_def and_then_def)
        from post_Return [OF Return this] d Continue Return show ?thesis
          by (simp add: decode_def decode_blocks_def and_then_def)
      next
        case c2: (Continue s' rest)
        with post_not_Continue show ?thesis by simp
      qed
    qed
  qed
qed

lemma instruction_switch_f0: "instruction_switch m 0xf0 = LockPrefix"
proof -
  have u: "uint (0xf0 :: byte) = 0xf0" by simp
  show ?thesis
    unfolding instruction_switch_def u instruction_cases_flat
    by (simp only: switch_eval cong: if_weak_cong)
qed

lemma instruction_switch_26: "instruction_switch m 0x26 = SegmentOverride ES"
proof -
  have u: "uint (0x26 :: byte) = 0x26" by simp
  show ?thesis
    unfolding instruction_switch_def u instruction_cases_flat
    by (simp only: switch_eval cong: if_weak_cong)
qed

lemma decode_lock_es_rep_stos:
  "decode m initial_state [0xf0, 0x26, 0xf3, 0xaa] =
     ((4, InstructionT STOS SourceNone SourceNone SIB_default True Word ES RepE 1 0 0),
      initial_state, [])"
  by (simp add: decode_Instruction phase_initial instruction_switch_f0 instruction_switch_26
      instruction_switch_f3 instruction_switch_aa SetOpSrcDestSize_def decode_ReadyToPost
      posted_def)
    (simp add: initial_state_def)

text \<open>
  Claim C4 (reset invariant). Whatever the fields and the buffer, a call that returns a
  positive count (a completed instruction or a rejection) leaves the decoder in its
  initial state, all prefix and tentative fields cleared; a \<open>NOP\<close> (0x90) decoded next has
  count 1, no lock, no segment override and no repetition. (\<open>reset_parsing\<close> is modelled
  from the spec.)
\<close>

theorem reset_after_positive_count:
  "0 < fst (fst (decode m s bs)) \<Longrightarrow>
   fst (snd (decode m s bs)) = initial_state \<and>
   decode m (fst (snd (decode m s bs))) (0x90 # rest) =
     ((1, InstructionT NOP SourceNone SourceNone SIB_default False Word SourceNone
            RepetitionNone 0 0 0),
      initial_state, rest)"
  using positive_resets [of m s bs] by (simp add: decode_nop)

theorem reset_after_positive_count_witness:
  "0 < fst (fst (decode i8086 initial_state [0xf0, 0x26, 0xf3, 0xaa])) \<and>
   ins_lock (snd (fst (decode i8086 initial_state [0xf0, 0x26, 0xf3, 0xaa]))) \<and>
   ins_segment_override (snd (fst (decode i8086 initial_state [0xf0, 0x26, 0xf3, 0xaa]))) = ES \<and>
   ins_repetition (snd (fst (decode i8086 initial_state [0xf0, 0x26, 0xf3, 0xaa]))) = RepE \<and>
   fst (snd (decode i8086 initial_state [0xf0, 0x26, 0xf3, 0xaa])) = initial_state \<and>
   decode i8086 (fst (snd (decode i8086 initial_state [0xf0, 0x26, 0xf3, 0xaa]))) [0x90] =
     ((1, InstructionT NOP SourceNone SourceNone SIB_default False Word SourceNone
            RepetitionNone 0 0 0),
      initial_state, [])"
  using reset_after_positive_count [of i8086 initial_state "[0xf0, 0x26, 0xf3, 0xaa]" "[]"]
  by (simp add: decode_lock_es_rep_stos)

section \<open>One-byte immediates\<close>






lemma top_byte_foldl16:
  "bs \<noteq> [] \<Longrightarrow> (ucast (drop_bit 56 (foldl shift_in w bs)) :: 16 word) = ucast (last bs)"
  by (induction bs rule: rev_induct) (simp_all add: top_byte)






section \<open>Memory operands\<close>

lemma instruction_switch_8b: "instruction_switch m 0x8b = MemRegReg MOV Reg_MemReg 2"
proof -
  have u: "uint (0x8b :: byte) = 0x8b" by simp
  show ?thesis
    unfolding instruction_switch_def u instruction_cases_flat
    by (simp only: switch_eval cong: if_weak_cong)
qed

lemma mov_reg_pending_fields:
  "phase mov_reg_pending = ModRegRM" "operand_bytes mov_reg_pending = 0"
  "displacement_size mov_reg_pending = 0" "operand_size mov_reg_pending = 0"
  "consumed mov_reg_pending = 1" "operation_size mov_reg_pending = 2"
  "operation mov_reg_pending = MOV" "modregrm_format mov_reg_pending = Reg_MemReg"
  by (simp_all add: mov_reg_pending_def initial_state_def)

lemma decode_8b: "decode m initial_state (0x8b # rest) = decode m mov_reg_pending rest"
  by (simp add: decode_Instruction phase_initial instruction_switch_8b mov_reg_pending_def)
    (simp add: initial_state_def)

lemma modrm_06:
  "drop_bit 6 (0x06 :: byte) = 0" "and (0x06 :: byte) 7 = 6" "and (drop_bit 3 (0x06 :: byte)) 7 = 0"
  by simp_all

lemma decode_8b_06:
  "decode m initial_state (0x8b # 0x06 # rest) =
     ((2, InstructionT MOV Indirect eAX (SIB 0 SourceNone eBP) False Word SourceNone
            RepetitionNone 2 0 0),
      initial_state, rest)"
  apply (simp add: decode_8b)
  apply (simp add: decode_ModRegRM mov_reg_pending_fields modrm_06 mod_switch_def
      format_switch_def reg_table_def rm_table_def modregrm_phase_def Let_def
      decode_ReadyToPost posted_def)
  apply (simp add: mov_reg_pending_def initial_state_def)
  done

lemma modrm_46:
  "drop_bit 6 (0x46 :: byte) = 1" "and (0x46 :: byte) 7 = 6" "and (drop_bit 3 (0x46 :: byte)) 7 = 0"
  by simp_all

lemma modrm_86:
  "drop_bit 6 (0x86 :: byte) = 2" "and (0x86 :: byte) 7 = 6" "and (drop_bit 3 (0x86 :: byte)) 7 = 0"
  by simp_all

lemma top_byte_signed: "(scast (ucast (drop_bit 56 (shift_in w b)) :: byte) :: 16 word) = scast b"
  by (simp add: top_byte8)

lemma decode_8b_46:
  "decode m initial_state [0x8b, 0x46, d] =
     ((3, InstructionT MOV Indirect eAX (SIB 0 SourceNone eBP) False Word SourceNone
            RepetitionNone 2 (scast d) 0),
      initial_state, [])"
  apply (simp add: decode_8b)
  apply (simp add: decode_ModRegRM mov_reg_pending_fields modrm_46 mod_switch_def
      format_switch_def reg_table_def rm_table_def modregrm_phase_def Let_def)
  apply (simp add: decode_Displacement mov_reg_pending_fields)
  apply (simp add: take_in_def finish_def operand_switch_def displacement_switch_def
      posted_def mov_reg_pending_fields top_byte_signed)
  apply (simp add: mov_reg_pending_def initial_state_def)
  done

lemma decode_8b_86:
  "decode m initial_state [0x8b, 0x86, d0, d1] =
     ((4, InstructionT MOV Indirect eAX (SIB 0 SourceNone eBP) False Word SourceNone
            RepetitionNone 2 (or (ucast d0) (push_bit 8 (ucast d1))) 0),
      initial_state, [])"
  apply (simp add: decode_8b)
  apply (simp add: decode_ModRegRM mov_reg_pending_fields modrm_86 mod_switch_def
      format_switch_def reg_table_def rm_table_def modregrm_phase_def Let_def)
  apply (simp add: decode_Displacement mov_reg_pending_fields)
  apply (simp add: take_in_def finish_def operand_switch_def displacement_switch_def
      posted_def mov_reg_pending_fields top_word)
  apply (simp add: mov_reg_pending_def initial_state_def)
  done

lemma instruction_switch_34: "instruction_switch m 0x34 = RegData XOR eAX 1"
proof -
  have u: "uint (0x34 :: byte) = 0x34" by simp
  show ?thesis
    unfolding instruction_switch_def u instruction_cases_flat
    by (simp only: switch_eval cong: if_weak_cong)
qed

lemma decode_34:
  "decode m initial_state [0x34, b] =
     ((2, InstructionT XOR Immediate eAX SIB_default False Word SourceNone RepetitionNone 1 0
            (ucast b)),
      initial_state, [])"
  apply (simp add: decode_Instruction phase_initial instruction_switch_34 SetOpSrcDestSize_def)
  apply (simp add: decode_Displacement initial_state_def)
  apply (simp add: take_in_def finish_def operand_switch_def displacement_switch_def
      posted_def top_byte)
  done

text \<open>
  Claim C2 (ModRM memory addressing): the code misses the case the claim ends with. The
  bytes 0x8B 0x06 0x34 0x12 (mod 0, reg 0, rm 6, then the address 0x1234) are
  \<open>MOV AX, [0x1234]\<close>, four bytes with a two-byte displacement and no base register. The
  switch on \<open>mod\<close> has no case for \<open>rm = 6\<close> under \<open>mod = 0\<close>: it takes the table's entry
  for \<open>rm = 6\<close>, base \<open>BP\<close> and no index, with no displacement byte, and returns a complete
  instruction of two bytes; the two bytes of the address, left unread, decode as the next
  instruction, \<open>XOR AL, 0x12\<close>. The same opcode and \<open>rm\<close> with \<open>mod = 1\<close> and \<open>mod = 2\<close>
  take one and two displacement bytes, as the claim says.
\<close>

theorem modrm_direct_address_missed:
  "decode m initial_state [0x8b, 0x06, 0x34, 0x12] =
     ((2, InstructionT MOV Indirect eAX (SIB 0 SourceNone eBP) False Word SourceNone
            RepetitionNone 2 0 0),
      initial_state, [0x34, 0x12]) \<and>
   decode m initial_state [0x34, 0x12] =
     ((2, InstructionT XOR Immediate eAX SIB_default False Word SourceNone RepetitionNone 1 0
            0x12),
      initial_state, []) \<and>
   decode m initial_state [0x8b, 0x46, d0] =
     ((3, InstructionT MOV Indirect eAX (SIB 0 SourceNone eBP) False Word SourceNone
            RepetitionNone 2 (scast d0) 0),
      initial_state, []) \<and>
   decode m initial_state [0x8b, 0x86, d0, d1] =
     ((4, InstructionT MOV Indirect eAX (SIB 0 SourceNone eBP) False Word SourceNone
            RepetitionNone 2 (or (ucast d0) (push_bit 8 (ucast d1))) 0),
      initial_state, [])"
  by (simp add: decode_8b_06 decode_8b_46 decode_8b_86 decode_34)

section \<open>Group opcodes with an unassigned selector\<close>























section \<open>The phases that occur\<close>

lemma perform_phase:
  "perform a s = Some s2 \<Longrightarrow> phase s \<noteq> ScaleIndexBase \<Longrightarrow> phase s2 \<noteq> ScaleIndexBase"
  by (cases a) (auto simp: SetOpSrcDestSize_def)

lemma phase_initial_not_sib: "phase initial_state \<noteq> ScaleIndexBase"
  by (simp add: initial_state_def)

lemma instruction_loop_phase:
  "phase s \<noteq> ScaleIndexBase \<Longrightarrow> phase (outcome_state (instruction_loop m s bs)) \<noteq> ScaleIndexBase"
proof (induction bs arbitrary: s)
  case Nil
  then show ?case by (simp add: outcome_state_def)
next
  case (Cons b bs)
  show ?case
  proof (cases "phase s = Instruction")
    case False
    with Cons.prems show ?thesis by (simp add: outcome_state_def)
  next
    case True
    show ?thesis
    proof (cases "perform (instruction_switch m b) (s\<lparr>instr := b, consumed := consumed s + 1\<rparr>)")
      case None
      with True show ?thesis
        by (simp add: outcome_state_def undefined_return_def reset_parsing_initial
            phase_initial_not_sib)
    next
      case (Some s2)
      from perform_phase [OF Some] True have "phase s2 \<noteq> ScaleIndexBase" by simp
      from Cons.IH [OF this] Some True show ?thesis by simp
    qed
  qed
qed

lemma instruction_page_f_phase:
  "phase s \<noteq> ScaleIndexBase \<Longrightarrow>
   phase (outcome_state (instruction_page_f m s bs)) \<noteq> ScaleIndexBase"
  by (auto simp: instruction_page_f_def outcome_state_def undefined_return_def
      reset_parsing_initial phase_initial_not_sib Let_def
      split: list.splits option.splits dest: perform_phase)

lemma modregrm_phase_not_sib:
  "phase s \<noteq> ScaleIndexBase \<Longrightarrow> phase (outcome_state (modregrm s bs)) \<noteq> ScaleIndexBase"
  by (auto simp: modregrm_def outcome_state_def undefined_return_def
      reset_parsing_initial phase_initial_not_sib Let_def
      split: list.splits sum.splits prod.splits)

lemma scale_index_base_phase:
  "phase s \<noteq> ScaleIndexBase \<Longrightarrow> phase (outcome_state (scale_index_base s bs)) \<noteq> ScaleIndexBase"
  by (simp add: scale_index_base_skip outcome_state_def)

lemma displacement_or_operand_phase:
  "phase s \<noteq> ScaleIndexBase \<Longrightarrow>
   phase (outcome_state (displacement_or_operand s bs)) \<noteq> ScaleIndexBase"
  by (auto simp: displacement_or_operand_def outcome_state_def Let_def
      operand_switch_keeps displacement_switch_keeps)

lemma post_phase:
  "phase s \<noteq> ScaleIndexBase \<Longrightarrow> phase (outcome_state (post s bs)) \<noteq> ScaleIndexBase"
  by (simp add: post_def outcome_state_def reset_parsing_initial phase_initial_not_sib)

lemma block_phase:
  "block \<in> set (blocks m) \<Longrightarrow> phase s \<noteq> ScaleIndexBase \<Longrightarrow>
   phase (outcome_state (block s bs)) \<noteq> ScaleIndexBase"
  by (auto simp: blocks_def instruction_loop_phase instruction_page_f_phase
      modregrm_phase_not_sib scale_index_base_phase displacement_or_operand_phase post_phase)

lemma visits_phase: "visits m s \<Longrightarrow> phase s \<noteq> ScaleIndexBase"
proof (induction rule: visits.induct)
  case visits_initial
  show ?case by (rule phase_initial_not_sib)
next
  case (visits_Continue s block bs s' bs')
  from block_phase [OF visits_Continue(2) visits_Continue(4), of bs] visits_Continue(3)
  show ?case by (simp add: outcome_state_def)
next
  case (visits_Return s block bs r s' bs')
  from block_phase [OF visits_Return(2) visits_Return(4), of bs] visits_Return(3)
  show ?case by (simp add: outcome_state_def)
qed

lemma visits_block:
  "visits m s \<Longrightarrow> block \<in> set (blocks m) \<Longrightarrow> visits m (outcome_state (block s bs))"
  by (cases "block s bs")
    (auto simp: outcome_state_def intro: visits_Continue visits_Return)

lemma visits_and_then:
  "visits m (outcome_state r) \<Longrightarrow> block \<in> set (blocks m) \<Longrightarrow>
   visits m (outcome_state (and_then r block))"
  by (cases r) (auto simp: and_then_def outcome_state_def intro: visits_Continue visits_Return
      split: Outcome.splits)

lemma decode_state: "fst (snd (decode m s bs)) = outcome_state (decode_blocks m s bs)"
  by (simp add: decode_def outcome_state_def split: Outcome.splits)

lemma visits_decode: "visits m s \<Longrightarrow> visits m (fst (snd (decode m s bs)))"
  unfolding decode_state decode_blocks_def
  by (intro visits_and_then visits_block) (simp_all add: blocks_def)

lemma reachable_visits: "reachable m s \<Longrightarrow> visits m s"
proof (induction rule: reachable.induct)
  case reachable_initial
  show ?case by (rule visits_initial)
next
  case (reachable_decode s bs r s' rest)
  from visits_decode [OF reachable_decode.IH, of bs] reachable_decode.hyps(3) show ?case by simp
qed

text \<open>
  Claim C10 (the phase \<open>ScaleIndexBase\<close> is unreachable). Whatever the model and the
  bytes, the fields at every block boundary of every call have one of the five other
  phases, so the block that would read a scale-index-base byte falls through without
  reading; the fields a call leaves are again among those visited. (Every decoder
  reachable between calls is visited: lemma \<open>reachable_visits\<close>.)
\<close>

theorem scale_index_base_unreachable:
  "visits m s \<Longrightarrow>
   phase s \<in> {Instruction, InstructionPageF, ModRegRM, DisplacementOrOperand, ReadyToPost} \<and>
   scale_index_base s bs = Continue s bs \<and>
   visits m (fst (snd (decode m s bs)))"
proof -
  assume v: "visits m s"
  from visits_phase [OF v] have "phase s \<noteq> ScaleIndexBase" .
  then show ?thesis
    using visits_decode [OF v, of bs]
    by (cases "phase s") (simp_all add: scale_index_base_skip)
qed

theorem scale_index_base_unreachable_witness:
  "visits i80386 initial_state \<and> phase initial_state = Instruction \<and>
   scale_index_base initial_state [0x8b, 0x04] = Continue initial_state [0x8b, 0x04] \<and>
   visits i80386 (fst (snd (decode i80386 initial_state [0x8b, 0x04])))"
  using scale_index_base_unreachable [OF visits_initial, where m = i80386 and bs = "[0x8b, 0x04]"]
  by (simp add: visits_initial phase_initial)
end
